theory Spec2Isabelle
  imports Main
begin

section \<open>Rate limiter\<close>

text \<open>
  The two edge functions (ai-diagnosis and the chatbot) carry the same in-memory limiter:
  \<^verbatim>\<open>const rateLimitMap = new Map<string, { count: number; resetTime: number }>();\<close>
  with \<^verbatim>\<open>RATE_LIMIT = 10\<close> and \<^verbatim>\<open>RATE_WINDOW_MS = 60000\<close>. The map is
  process-wide state, so the model passes it in and returns it updated; \<^verbatim>\<open>Date.now()\<close>
  is the parameter \<open>now\<close> (milliseconds).
\<close>

record rl_entry =
  count :: int
  resetTime :: int

type_synonym rate_map = "string \<rightharpoonup> rl_entry"

definition RATE_LIMIT :: int where
  "RATE_LIMIT = 10"

definition RATE_WINDOW_MS :: int where
  "RATE_WINDOW_MS = 60000"

definition checkRateLimit :: "int \<Rightarrow> string \<Rightarrow> rate_map \<Rightarrow> bool \<times> rate_map" where
  "checkRateLimit now userId rateLimitMap =
     (case rateLimitMap userId of
        None \<Rightarrow>
          (True, rateLimitMap(userId \<mapsto> \<lparr>count = 1, resetTime = now + RATE_WINDOW_MS\<rparr>))
      | Some userLimit \<Rightarrow>
          if now > resetTime userLimit then
            (True, rateLimitMap(userId \<mapsto> \<lparr>count = 1, resetTime = now + RATE_WINDOW_MS\<rparr>))
          else if count userLimit \<ge> RATE_LIMIT then
            (False, rateLimitMap)
          else
            (True, rateLimitMap(userId \<mapsto> userLimit\<lparr>count := count userLimit + 1\<rparr>)))"

text \<open>
  A sequence of calls by one user at the given clock readings: the answers in order and
  the map after the last call.
\<close>

fun run_calls :: "int list \<Rightarrow> string \<Rightarrow> rate_map \<Rightarrow> bool list \<times> rate_map" where
  "run_calls [] userId m = ([], m)"
| "run_calls (t # ts) userId m =
     (case checkRateLimit t userId m of
        (ok, m') \<Rightarrow> (case run_calls ts userId m' of (oks, m'') \<Rightarrow> (ok # oks, m'')))"

section \<open>Identifier extractor\<close>

text \<open>
  The NFC scanner component turns a scanned or pasted string into a patient id:
  \<^verbatim>\<open>
  const patientIdSchema = z.string().uuid("Must be a valid patient UUID");
  const extractPatientId = (rawData: string): string | null => {
    const trimmed = rawData.trim();
    const directId = patientIdSchema.safeParse(trimmed);
    if (directId.success) return directId.data;
    try {
      const parsedUrl = new URL(trimmed);
      const match = parsedUrl.pathname.match(/^\/patient\/([0-9a-fA-F-]{36})$/);
      if (!match?.[1]) return null;
      const fromUrl = patientIdSchema.safeParse(match[1]);
      return fromUrl.success ? fromUrl.data : null;
    } catch { return null; }
  };
  \<close>
  Strings are \<^typ>\<open>string\<close>, one \<^typ>\<open>char\<close> per code unit below 256. The white space
  that \<^verbatim>\<open>String.prototype.trim\<close> strips is, in that range, TAB, LF, VT, FF, CR, SPACE and
  NBSP.
\<close>

definition is_ws :: "char \<Rightarrow> bool" where
  "is_ws c = (c \<in> {CHR 0x09, CHR 0x0A, CHR 0x0B, CHR 0x0C, CHR 0x0D, CHR 0x20, CHR 0xA0})"

definition trim :: "string \<Rightarrow> string" where
  "trim s = rev (dropWhile is_ws (rev (dropWhile is_ws s)))"

definition is_hex :: "char \<Rightarrow> bool" where
  "is_hex c = (c \<in> set ''0123456789abcdefABCDEF'')"

definition is_hex_or_dash :: "char \<Rightarrow> bool" where
  "is_hex_or_dash c = (is_hex c \<or> c = CHR ''-'')"

text \<open>
  The regular expression \<^verbatim>\<open>/^\/patient\/([0-9a-fA-F-]{36})$/\<close> on the path: the result is
  the captured group, \<open>None\<close> when there is no match.
\<close>

definition match_patient_path :: "string \<Rightarrow> string option" where
  "match_patient_path pathname =
     (if take 9 pathname = ''/patient/'' \<and> length (drop 9 pathname) = 36
         \<and> list_all is_hex_or_dash (drop 9 pathname)
      then Some (drop 9 pathname) else None)"

text \<open>
  The zod validator and the runtime's URL parser are library code, so the extractor takes
  them as parameters: \<open>uuid_ok\<close> is \<^verbatim>\<open>patientIdSchema.safeParse(s).success\<close> (on success
  the parsed data is the string itself), and \<open>url_pathname s\<close> is the pathname of
  \<^verbatim>\<open>new URL(s)\<close>, \<open>None\<close> when the constructor throws. A captured group is never empty, so
  the test \<^verbatim>\<open>!match?.[1]\<close> fails exactly when there is no match.
\<close>

definition extractPatientId ::
    "(string \<Rightarrow> bool) \<Rightarrow> (string \<Rightarrow> string option) \<Rightarrow> string \<Rightarrow> string option" where
  "extractPatientId uuid_ok url_pathname rawData =
     (let trimmed = trim rawData in
      if uuid_ok trimmed then Some trimmed
      else
        (case url_pathname trimmed of
           None \<Rightarrow> None
         | Some pathname \<Rightarrow>
             (case match_patient_path pathname of
                None \<Rightarrow> None
              | Some m1 \<Rightarrow> if uuid_ok m1 then Some m1 else None)))"

text \<open>
  Modelled from the spec: the UUID validator of the zod library, which is not part of the
  sources. The spec asks for a syntactically valid UUID of 36 characters, hexadecimal
  digits in either case, with the dashes in their places (groups of 8, 4, 4, 4 and 12).
\<close>

definition uuid_shape :: string where
  "uuid_shape = ''xxxxxxxx-xxxx-xxxx-xxxx-xxxxxxxxxxxx''"

definition is_uuid :: "string \<Rightarrow> bool" where
  "is_uuid s =
     list_all2 (\<lambda>p c. if p = CHR ''-'' then c = CHR ''-'' else is_hex c) uuid_shape s"

definition upper_hex :: "char \<Rightarrow> char" where
  "upper_hex c =
     (if c = CHR ''a'' then CHR ''A'' else if c = CHR ''b'' then CHR ''B''
      else if c = CHR ''c'' then CHR ''C'' else if c = CHR ''d'' then CHR ''D''
      else if c = CHR ''e'' then CHR ''E'' else if c = CHR ''f'' then CHR ''F'' else c)"

definition lower_hex :: "char \<Rightarrow> char" where
  "lower_hex c =
     (if c = CHR ''A'' then CHR ''a'' else if c = CHR ''B'' then CHR ''b''
      else if c = CHR ''C'' then CHR ''c'' else if c = CHR ''D'' then CHR ''d''
      else if c = CHR ''E'' then CHR ''e'' else if c = CHR ''F'' then CHR ''f'' else c)"

text \<open>
  Modelled from the spec: the absolute-URL parser of the runtime, which is not part of the
  sources. This stand-in reads \<^verbatim>\<open>scheme://host/path?query#fragment\<close> and returns the
  path (\<^verbatim>\<open>/\<close> when it is empty); anything else does not parse. It instantiates the
  parameter \<open>url_pathname\<close> in the examples only.
\<close>

definition is_alpha :: "char \<Rightarrow> bool" where
  "is_alpha c = (c \<in> set ''abcdefghijklmnopqrstuvwxyzABCDEFGHIJKLMNOPQRSTUVWXYZ'')"

definition is_scheme_char :: "char \<Rightarrow> bool" where
  "is_scheme_char c = (is_alpha c \<or> c \<in> set ''0123456789+-.'')"

definition url_pathname_simple :: "string \<Rightarrow> string option" where
  "url_pathname_simple s =
     (let scheme = takeWhile (\<lambda>c. c \<noteq> CHR '':'') s;
          rest = drop (length scheme) s;
          after = drop 3 rest;
          host = takeWhile (\<lambda>c. c \<notin> set ''/?#'') after;
          path = takeWhile (\<lambda>c. c \<notin> set ''?#'') (drop (length host) after)
      in if scheme = [] \<or> \<not> is_alpha (hd scheme) \<or> \<not> list_all is_scheme_char scheme
            \<or> take 3 rest \<noteq> ''://'' \<or> host = []
         then None
         else Some (if path = [] then ''/'' else path))"

section \<open>The ai-diagnosis handler\<close>

subsection \<open>JavaScript values\<close>

text \<open>
  The request body, the model's reply and the parsed analysis are untyped JSON values.
  Numbers carry their integer value (ages and confidences are integers in the data model).
  An object is the list of its own properties, each key once.
\<close>

datatype jsval =
    JUndefined
  | JNull
  | JBool bool
  | JNum int
  | JStr string
  | JArr "jsval list"
  | JObj "(string \<times> jsval) list"

text \<open>Truthiness, as \<^verbatim>\<open>!v\<close> and \<^verbatim>\<open>v || w\<close> test it.\<close>

fun truthy :: "jsval \<Rightarrow> bool" where
  "truthy JUndefined = False"
| "truthy JNull = False"
| "truthy (JBool b) = b"
| "truthy (JNum n) = (n \<noteq> 0)"
| "truthy (JStr s) = (s \<noteq> [])"
| "truthy (JArr xs) = True"
| "truthy (JObj kvs) = True"

definition nullish :: "jsval \<Rightarrow> bool" where
  "nullish v = (v = JUndefined \<or> v = JNull)"

text \<open>
  \<open>member k v\<close> is \<^verbatim>\<open>v.k\<close> for a value that is not null or undefined (on those the
  access throws, which the callers test first). The handler reads only the keys
  patientData, name, age, bloodType, allergies, medications, conditions, choices, message,
  content and triageLevel; no built-in prototype defines any of them, so only an object's
  own property gives a value.
\<close>

fun member :: "string \<Rightarrow> jsval \<Rightarrow> jsval" where
  "member k (JObj kvs) = (case map_of kvs k of None \<Rightarrow> JUndefined | Some v \<Rightarrow> v)"
| "member k v = JUndefined"

text \<open>Optional chaining: \<^verbatim>\<open>v?.k\<close> and \<^verbatim>\<open>v?.[0]\<close>.\<close>

definition opt_member :: "string \<Rightarrow> jsval \<Rightarrow> jsval" where
  "opt_member k v = (if nullish v then JUndefined else member k v)"

fun opt_index0 :: "jsval \<Rightarrow> jsval" where
  "opt_index0 (JArr xs) = (case xs of [] \<Rightarrow> JUndefined | x # _ \<Rightarrow> x)"
| "opt_index0 (JStr s) = (case s of [] \<Rightarrow> JUndefined | c # _ \<Rightarrow> JStr [c])"
| "opt_index0 (JObj kvs) = (case map_of kvs ''0'' of None \<Rightarrow> JUndefined | Some v \<Rightarrow> v)"
| "opt_index0 v = JUndefined"

text \<open>
  A template literal converts its arguments to strings. The conversion of a JSON value
  throws a TypeError in one case only: an object with an own property \<^verbatim>\<open>toString\<close>
  (which is data, not a function, and the inherited \<^verbatim>\<open>valueOf\<close> returns the object
  itself). An array is converted by joining the conversions of its elements.
\<close>

fun stringifiable :: "jsval \<Rightarrow> bool" where
  "stringifiable (JArr xs) = list_all stringifiable xs"
| "stringifiable (JObj kvs) = (map_of kvs ''toString'' = None)"
| "stringifiable v = True"

text \<open>
  \<^verbatim>\<open>v?.join(", ")\<close> returns for null, undefined and arrays of convertible elements; on
  any other value \<^verbatim>\<open>join\<close> is not a function and the call throws.
\<close>

fun join_ok :: "jsval \<Rightarrow> bool" where
  "join_ok JUndefined = True"
| "join_ok JNull = True"
| "join_ok (JArr xs) = list_all stringifiable xs"
| "join_ok v = False"

subsection \<open>Requests, the environment and responses\<close>

text \<open>
  \<open>authorization\<close> is \<^verbatim>\<open>req.headers.get("Authorization")\<close>; \<open>req_json\<close> is the result
  of \<^verbatim>\<open>await req.json()\<close>, \<open>None\<close> when it throws.
\<close>

record request =
  req_method :: string
  authorization :: "string option"
  req_json :: "jsval option"

text \<open>
  The reply of the AI gateway: \<^verbatim>\<open>fetch\<close> throws, or it returns a status together with the
  result of \<^verbatim>\<open>aiResponse.json()\<close> (\<open>None\<close> when that throws).
\<close>

datatype upstream = FetchThrows | Upstream nat "jsval option"

text \<open>
  Each external call happens at most once in a request; the environment holds its
  outcome.
  \<^item> \<open>date_now\<close>: \<^verbatim>\<open>Date.now()\<close>;
  \<^item> \<open>createClient_ok\<close>: \<^verbatim>\<open>createClient\<close> returns (it throws on a missing SUPABASE_URL or key);
  \<^item> \<open>auth_user\<close>: the id of the user of \<^verbatim>\<open>supabase.auth.getUser()\<close>, \<open>None\<close> on
    \<^verbatim>\<open>authError || !user\<close>;
  \<^item> \<open>roles_result\<close>: the user_roles query, \<open>Inl\<close> the error message, \<open>Inr\<close> the role
    names of the rows (\<open>None\<close> for null data);
  \<^item> \<open>api_key\<close>: \<^verbatim>\<open>Deno.env.get("LOVABLE_API_KEY")\<close>;
  \<^item> \<open>ai_reply\<close>: the gateway's reply;
  \<^item> \<open>json_parse\<close>: \<^verbatim>\<open>JSON.parse\<close> on the reply's content, \<open>None\<close> when it throws;
  \<^item> \<open>log_error\<close>: the error of the access_logs insert, \<open>None\<close> on success.
\<close>

record env =
  date_now :: int
  createClient_ok :: bool
  auth_user :: "string option"
  roles_result :: "string + string list option"
  api_key :: "string option"
  ai_reply :: upstream
  json_parse :: "jsval \<Rightarrow> jsval option"
  log_error :: "string option"

datatype js_exception =
    TypeError | BodyNotJson | ClientCreationFailed | FetchFailed | UpstreamBodyNotJson

text \<open>
  Response bodies: none (CORS preflight), \<^verbatim>\<open>{error: msg}\<close> with a fixed message,
  \<^verbatim>\<open>{error: error.message}\<close> from the outer catch, and \<^verbatim>\<open>{analysis}\<close>.
\<close>

datatype body = NoBody | ErrorMsg string | ExceptionMessage js_exception | Analysis jsval

record response =
  status :: nat
  body :: body

text \<open>
  The effects of one request on the outside world, in order. Console output is left out,
  except the warning for a failed audit insert, the only trace that error leaves.
\<close>

datatype event =
    AuthLookup string
  | RoleQuery string
  | ModelCall jsval
  | LogInsert string jsval jsval
  | LogFailureWarned string

record outcome =
  resp :: response
  effects :: "event list"
  limits :: rate_map

definition out :: "response \<Rightarrow> event list \<Rightarrow> rate_map \<Rightarrow> outcome" where
  "out r tr m = \<lparr>resp = r, effects = tr, limits = m\<rparr>"

definition json_error :: "nat \<Rightarrow> string \<Rightarrow> response" where
  "json_error st msg = \<lparr>status = st, body = ErrorMsg msg\<rparr>"

definition uncaught :: "js_exception \<Rightarrow> response" where
  "uncaught ex = \<lparr>status = 500, body = ExceptionMessage ex\<rparr>"

definition falsy_string :: "string option \<Rightarrow> bool" where
  "falsy_string h = (h = None \<or> h = Some [])"

text \<open>\<^verbatim>\<open>aiResponse.ok\<close>: the status is in the range 200 to 299.\<close>

definition response_ok :: "nat \<Rightarrow> bool" where
  "response_ok st = (200 \<le> st \<and> st \<le> 299)"

subsection \<open>The handler, stage by stage\<close>

text \<open>
  \<^verbatim>\<open>roles?.some((r) => r.role === "medical_responder" || r.role === "hospital_admin")\<close>
\<close>

definition hasPermission :: "string list option \<Rightarrow> bool" where
  "hasPermission roles =
     (case roles of
        None \<Rightarrow> False
      | Some rs \<Rightarrow> list_ex (\<lambda>r. r = ''medical_responder'' \<or> r = ''hospital_admin'') rs)"

text \<open>\<^verbatim>\<open>aiData.choices?.[0]?.message?.content\<close>, for \<open>aiData\<close> not null.\<close>

definition message_content :: "jsval \<Rightarrow> jsval" where
  "message_content aiData =
     opt_member ''content'' (opt_member ''message'' (opt_index0 (member ''choices'' aiData)))"

text \<open>
  The user prompt interpolates name, age and bloodType and joins the three lists;
  building it throws when one of these conversions does.
\<close>

definition prompt_builds :: "jsval \<Rightarrow> bool" where
  "prompt_builds patientData =
     (stringifiable (member ''name'' patientData)
      \<and> stringifiable (member ''age'' patientData)
      \<and> stringifiable (member ''bloodType'' patientData)
      \<and> join_ok (member ''allergies'' patientData)
      \<and> join_ok (member ''medications'' patientData)
      \<and> join_ok (member ''conditions'' patientData))"

text \<open>
  From the parsed analysis to the response: the audit insert (its argument reads
  \<^verbatim>\<open>analysis.triageLevel\<close>, which throws on null), the warning when the insert failed,
  the closing log line (a template literal over name and triageLevel) and the reply.
\<close>

definition finish_analysis ::
    "env \<Rightarrow> string \<Rightarrow> jsval \<Rightarrow> jsval \<Rightarrow> event list \<Rightarrow> rate_map \<Rightarrow> outcome" where
  "finish_analysis e uid patientData analysis tr m =
     (if nullish analysis then out (uncaught TypeError) tr m
      else
        let tr' = tr @ [LogInsert uid (member ''name'' patientData) (member ''triageLevel'' analysis)]
                     @ (case log_error e of None \<Rightarrow> [] | Some msg \<Rightarrow> [LogFailureWarned msg])
        in if \<not> (stringifiable (member ''name'' patientData)
                  \<and> stringifiable (member ''triageLevel'' analysis))
           then out (uncaught TypeError) tr' m
           else out \<lparr>status = 200, body = Analysis analysis\<rparr> tr' m)"

text \<open>After \<^verbatim>\<open>fetch\<close>: the upstream status, the content, \<^verbatim>\<open>JSON.parse\<close>.\<close>

definition respond_to_model ::
    "env \<Rightarrow> string \<Rightarrow> jsval \<Rightarrow> event list \<Rightarrow> rate_map \<Rightarrow> outcome" where
  "respond_to_model e uid patientData tr m =
     (case ai_reply e of
        FetchThrows \<Rightarrow> out (uncaught FetchFailed) tr m
      | Upstream errorStatus aiData \<Rightarrow>
          if \<not> response_ok errorStatus then
            (if errorStatus = 429 then
               out (json_error 429 ''AI service rate limit exceeded. Please try again later.'') tr m
             else if errorStatus = 402 then
               out (json_error 402 ''AI service payment required. Please contact administrator.'') tr m
             else out (json_error 500 ''AI analysis failed'') tr m)
          else
            (case aiData of
               None \<Rightarrow> out (uncaught UpstreamBodyNotJson) tr m
             | Some d \<Rightarrow>
                 if nullish d then out (uncaught TypeError) tr m
                 else
                   let analysisContent = message_content d in
                   if \<not> truthy analysisContent then
                     out (json_error 500 ''Invalid AI response'') tr m
                   else
                     (case json_parse e analysisContent of
                        None \<Rightarrow> out (json_error 500 ''Failed to parse AI analysis'') tr m
                      | Some analysis \<Rightarrow> finish_analysis e uid patientData analysis tr m)))"

text \<open>
  From validated patient data to the gateway call: the log line with the name, the API
  key, the prompt, \<^verbatim>\<open>fetch\<close>.
\<close>

definition call_model ::
    "env \<Rightarrow> string \<Rightarrow> jsval \<Rightarrow> event list \<Rightarrow> rate_map \<Rightarrow> outcome" where
  "call_model e uid patientData tr m =
     (if \<not> stringifiable (member ''name'' patientData) then out (uncaught TypeError) tr m
      else if falsy_string (api_key e) then
        out (json_error 500 ''AI service not configured'') tr m
      else if \<not> prompt_builds patientData then out (uncaught TypeError) tr m
      else respond_to_model e uid patientData (tr @ [ModelCall patientData]) m)"

text \<open>
  \<^verbatim>\<open>
  const { patientData } = await req.json();
  if (!patientData) { ... 400 "Patient data required" }
  if (!patientData.name || !patientData.age || !patientData.bloodType) {
    ... 400 "Invalid patient data structure" }
  \<close>
\<close>

definition validate_body ::
    "env \<Rightarrow> request \<Rightarrow> string \<Rightarrow> event list \<Rightarrow> rate_map \<Rightarrow> outcome" where
  "validate_body e r uid tr m =
     (case req_json r of
        None \<Rightarrow> out (uncaught BodyNotJson) tr m
      | Some b \<Rightarrow>
          if nullish b then out (uncaught TypeError) tr m
          else
            let patientData = member ''patientData'' b in
            if \<not> truthy patientData then out (json_error 400 ''Patient data required'') tr m
            else if \<not> truthy (member ''name'' patientData)
                    \<or> \<not> truthy (member ''age'' patientData)
                    \<or> \<not> truthy (member ''bloodType'' patientData) then
              out (json_error 400 ''Invalid patient data structure'') tr m
            else call_model e uid patientData tr m)"

definition check_role ::
    "env \<Rightarrow> request \<Rightarrow> string \<Rightarrow> event list \<Rightarrow> rate_map \<Rightarrow> outcome" where
  "check_role e r uid tr m =
     (case roles_result e of
        Inl roleError \<Rightarrow>
          out (json_error 500 ''Failed to verify user role'') (tr @ [RoleQuery uid]) m
      | Inr roles \<Rightarrow>
          if \<not> hasPermission roles then
            out (json_error 403
                   ''Insufficient permissions. Medical responder or admin role required.'')
                (tr @ [RoleQuery uid]) m
          else validate_body e r uid (tr @ [RoleQuery uid]) m)"

text \<open>
  The handler passed to \<^verbatim>\<open>serve\<close>: preflight, Authorization header, client, user,
  rate limit, then the stages above. The outer \<^verbatim>\<open>catch\<close> turns any exception into
  status 500; effects made before the exception stay made.
\<close>

definition serve :: "env \<Rightarrow> request \<Rightarrow> rate_map \<Rightarrow> outcome" where
  "serve e r m =
     (if req_method r = ''OPTIONS'' then out \<lparr>status = 200, body = NoBody\<rparr> [] m
      else
        (case authorization r of
           None \<Rightarrow> out (json_error 401 ''Authorization required'') [] m
         | Some authHeader \<Rightarrow>
             if authHeader = [] then out (json_error 401 ''Authorization required'') [] m
             else if \<not> createClient_ok e then out (uncaught ClientCreationFailed) [] m
             else
               (case auth_user e of
                  None \<Rightarrow> out (json_error 401 ''Invalid authentication'') [AuthLookup authHeader] m
                | Some uid \<Rightarrow>
                    (case checkRateLimit (date_now e) uid m of
                       (allowed, m') \<Rightarrow>
                         if \<not> allowed then
                           out (json_error 429
                                  ''Rate limit exceeded. Please wait before making another request.'')
                               [AuthLookup authHeader] m'
                         else check_role e r uid [AuthLookup authHeader] m'))))"

subsection \<open>Passing every guard\<close>

text \<open>
  A run passes every guard, for the Authorization header \<open>h\<close>, the user \<open>uid\<close>, the rate
  map \<open>m'\<close> left by the limiter and the patient data \<open>pd\<close>, when the request is not a
  preflight, the header is present, the user is authenticated, the limiter allows the
  call, the role query succeeds with a privileged role, and the body carries patient data
  whose name, age and bloodType are truthy.
\<close>

definition guards_pass ::
    "env \<Rightarrow> request \<Rightarrow> rate_map \<Rightarrow> string \<Rightarrow> string \<Rightarrow> rate_map \<Rightarrow> jsval \<Rightarrow> bool" where
  "guards_pass e r m h uid m' pd =
     (req_method r \<noteq> ''OPTIONS''
      \<and> authorization r = Some h \<and> h \<noteq> []
      \<and> createClient_ok e
      \<and> auth_user e = Some uid
      \<and> checkRateLimit (date_now e) uid m = (True, m')
      \<and> (\<exists>roles. roles_result e = Inr roles \<and> hasPermission roles)
      \<and> (\<exists>b. req_json r = Some b \<and> \<not> nullish b \<and> pd = member ''patientData'' b)
      \<and> truthy pd
      \<and> truthy (member ''name'' pd) \<and> truthy (member ''age'' pd)
      \<and> truthy (member ''bloodType'' pd))"

subsection \<open>The validation the specification describes\<close>

text \<open>
  The spec's structural validation of a parsed analysis, in its words: triageLevel is one
  of the three enumerated values; probableConditions and immediateActions are present
  (possibly empty); confidence fields, if present, are numeric. The handler has no
  function of this kind; the definition states what the spec asks for.
\<close>

definition confidence_numeric :: "jsval \<Rightarrow> bool" where
  "confidence_numeric c =
     (case member ''confidence'' c of JUndefined \<Rightarrow> True | JNum n \<Rightarrow> True | _ \<Rightarrow> False)"

definition spec_valid_diagnosis :: "jsval \<Rightarrow> bool" where
  "spec_valid_diagnosis a =
     (member ''triageLevel'' a \<in> {JStr ''critical'', JStr ''urgent'', JStr ''stable''}
      \<and> member ''probableConditions'' a \<noteq> JUndefined
      \<and> member ''immediateActions'' a \<noteq> JUndefined
      \<and> (case member ''probableConditions'' a of
            JArr cs \<Rightarrow> list_all confidence_numeric cs
          | _ \<Rightarrow> True))"

subsection \<open>Example requests and environments\<close>

text \<open>
  A request by a signed-in medical responder for a patient of the given age; a gateway
  reply body with one choice; and an environment in which every external call succeeds,
  the gateway answers \<open>reply\<close> and \<^verbatim>\<open>JSON.parse\<close> of the content gives \<open>parsed\<close>.
\<close>

definition example_patient :: "int \<Rightarrow> jsval" where
  "example_patient age =
     JObj [(''name'', JStr ''Baby Doe''), (''age'', JNum age), (''bloodType'', JStr ''O+''),
           (''allergies'', JArr [JStr ''penicillin'']), (''medications'', JArr []),
           (''conditions'', JArr [])]"

definition example_request :: "int \<Rightarrow> request" where
  "example_request age =
     \<lparr>req_method = ''POST'', authorization = Some ''Bearer token'',
      req_json = Some (JObj [(''patientData'', example_patient age)])\<rparr>"

definition example_reply :: jsval where
  "example_reply =
     JObj [(''choices'', JArr [JObj [(''message'', JObj [(''content'', JStr ''model output'')])]])]"


definition example_env :: "string list \<Rightarrow> upstream \<Rightarrow> jsval option \<Rightarrow> env" where
  "example_env roles reply parsed =
     \<lparr>date_now = 1000, createClient_ok = True, auth_user = Some ''user-1'',
      roles_result = Inr (Some roles), api_key = Some ''key'',
      ai_reply = reply, json_parse = (\<lambda>c. parsed), log_error = None\<rparr>"

definition urgent_analysis :: jsval where
  "urgent_analysis =
     JObj [(''triageLevel'', JStr ''urgent''), (''probableConditions'', JArr []),
           (''immediateActions'', JArr [])]"

definition unknown_analysis :: jsval where
  "unknown_analysis = JObj [(''triageLevel'', JStr ''unknown'')]"

section \<open>Properties of the rate limiter\<close>

lemma checkRateLimit_fresh:
  "m u = None \<or> (\<exists>e. m u = Some e \<and> now > resetTime e) \<Longrightarrow>
   checkRateLimit now u m = (True, m(u \<mapsto> \<lparr>count = 1, resetTime = now + 60000\<rparr>))"
  by (auto simp: checkRateLimit_def RATE_WINDOW_MS_def)

lemma checkRateLimit_full:
  "m u = Some e \<Longrightarrow> \<not> now > resetTime e \<Longrightarrow> count e \<ge> 10 \<Longrightarrow>
   checkRateLimit now u m = (False, m)"
  by (simp add: checkRateLimit_def RATE_LIMIT_def)

lemma checkRateLimit_incr:
  "m u = Some e \<Longrightarrow> \<not> now > resetTime e \<Longrightarrow> count e < 10 \<Longrightarrow>
   checkRateLimit now u m = (True, m(u \<mapsto> e\<lparr>count := count e + 1\<rparr>))"
  by (simp add: checkRateLimit_def RATE_LIMIT_def)

lemma run_calls_append:
  "run_calls (ts @ us) u m =
     (case run_calls ts u m of
        (oks, m') \<Rightarrow> (case run_calls us u m' of (oks', m'') \<Rightarrow> (oks @ oks', m'')))"
  by (induction ts arbitrary: m) (auto split: prod.splits)

lemma run_calls_in_window:
  "m u = Some e \<Longrightarrow> \<forall>t\<in>set ts. t \<le> resetTime e \<Longrightarrow> count e + int (length ts) \<le> 10 \<Longrightarrow>
   run_calls ts u m =
     (replicate (length ts) True, m(u \<mapsto> e\<lparr>count := count e + int (length ts)\<rparr>))"
proof (induction ts arbitrary: m e)
  case Nil
  then show ?case by (simp add: map_upd_triv)
next
  case (Cons t ts)
  let ?e' = "e\<lparr>count := count e + 1\<rparr>"
  let ?m' = "m(u \<mapsto> ?e')"
  have step: "checkRateLimit t u m = (True, ?m')"
    using Cons.prems by (intro checkRateLimit_incr) auto
  let ?x = "?e'\<lparr>count := count ?e' + int (length ts)\<rparr>"
  let ?y = "e\<lparr>count := count e + int (length (t # ts))\<rparr>"
  have A: "run_calls ts u ?m' = (replicate (length ts) True, ?m'(u \<mapsto> ?x))"
    using Cons.prems by (intro Cons.IH) auto
  have B: "?x = ?y"
    by simp
  have C: "?m'(u \<mapsto> ?y) = m(u \<mapsto> ?y)"
    by simp
  have rest: "run_calls ts u ?m' = (replicate (length ts) True, m(u \<mapsto> ?y))"
    by (simp only: A B C)
  show ?case
    by (simp only: run_calls.simps step prod.case rest replicate_Suc length_Cons)
qed

text \<open>
  Claim C3. checkRateLimit is a fixed-window counter per user id. With no entry, or with
  the clock past the entry's resetTime, the entry becomes count 1 with resetTime
  now + 60000 ms and the call is allowed. With a live entry whose count is at least 10 the
  call is denied and the map is unchanged. Otherwise the count goes up by one and the call
  is allowed. Hence, when the first call opens a window at t0 and the next nine calls come
  no later than t0 + 60000, all ten are allowed, an eleventh call inside the window is
  denied, and a call after the window has elapsed is allowed with the counter back at 1.
\<close>

theorem checkRateLimit_fixed_window:
  "(m u = None \<or> (\<exists>e. m u = Some e \<and> now > resetTime e) \<longrightarrow>
      checkRateLimit now u m = (True, m(u \<mapsto> \<lparr>count = 1, resetTime = now + 60000\<rparr>)))
   \<and> (\<forall>e. m u = Some e \<and> \<not> now > resetTime e \<and> count e \<ge> 10 \<longrightarrow>
      checkRateLimit now u m = (False, m))
   \<and> (\<forall>e. m u = Some e \<and> \<not> now > resetTime e \<and> count e < 10 \<longrightarrow>
      checkRateLimit now u m = (True, m(u \<mapsto> e\<lparr>count := count e + 1\<rparr>)))
   \<and> ((m u = None \<or> (\<exists>e. m u = Some e \<and> t0 > resetTime e)) \<and> length ts = 9
        \<and> (\<forall>t\<in>set (ts @ [t11]). t \<le> t0 + 60000) \<and> t' > t0 + 60000 \<longrightarrow>
      (case run_calls (t0 # ts @ [t11]) u m of
         (oks, m') \<Rightarrow>
           oks = replicate 10 True @ [False]
           \<and> m' u = Some \<lparr>count = 10, resetTime = t0 + 60000\<rparr>
           \<and> checkRateLimit t' u m' =
               (True, m'(u \<mapsto> \<lparr>count = 1, resetTime = t' + 60000\<rparr>))))"
proof (intro conjI impI allI)
  assume "m u = None \<or> (\<exists>e. m u = Some e \<and> now > resetTime e)"
  then show "checkRateLimit now u m = (True, m(u \<mapsto> \<lparr>count = 1, resetTime = now + 60000\<rparr>))"
    by (rule checkRateLimit_fresh)
next
  fix e assume "m u = Some e \<and> \<not> now > resetTime e \<and> count e \<ge> 10"
  then show "checkRateLimit now u m = (False, m)"
    by (simp add: checkRateLimit_full)
next
  fix e assume "m u = Some e \<and> \<not> now > resetTime e \<and> count e < 10"
  then show "checkRateLimit now u m = (True, m(u \<mapsto> e\<lparr>count := count e + 1\<rparr>))"
    by (simp add: checkRateLimit_incr)
next
  assume a: "(m u = None \<or> (\<exists>e. m u = Some e \<and> t0 > resetTime e)) \<and> length ts = 9
      \<and> (\<forall>t\<in>set (ts @ [t11]). t \<le> t0 + 60000) \<and> t' > t0 + 60000"
  let ?e1 = "\<lparr>count = 1, resetTime = t0 + 60000\<rparr>"
  let ?m1 = "m(u \<mapsto> ?e1)"
  let ?e10 = "\<lparr>count = 10, resetTime = t0 + 60000\<rparr>"
  let ?m10 = "?m1(u \<mapsto> ?e10)"
  have first: "checkRateLimit t0 u m = (True, ?m1)"
    using a by (intro checkRateLimit_fresh) simp
  have "run_calls ts u ?m1 =
          (replicate (length ts) True, ?m1(u \<mapsto> ?e1\<lparr>count := count ?e1 + int (length ts)\<rparr>))"
    using a by (intro run_calls_in_window) auto
  then have nine: "run_calls ts u ?m1 = (replicate 9 True, ?m10)"
    using a by simp
  have eleventh: "checkRateLimit t11 u ?m10 = (False, ?m10)"
    using a by (intro checkRateLimit_full[where e = ?e10]) auto
  have after: "checkRateLimit t' u ?m10 =
                 (True, ?m10(u \<mapsto> \<lparr>count = 1, resetTime = t' + 60000\<rparr>))"
    using a by (intro checkRateLimit_fresh) simp
  have "run_calls (t0 # ts @ [t11]) u m = (replicate 10 True @ [False], ?m10)"
    using first nine eleventh
    by (simp add: run_calls_append replicate_append_same numeral_eq_Suc)
  with after show "case run_calls (t0 # ts @ [t11]) u m of
         (oks, m') \<Rightarrow>
           oks = replicate 10 True @ [False]
           \<and> m' u = Some \<lparr>count = 10, resetTime = t0 + 60000\<rparr>
           \<and> checkRateLimit t' u m' =
               (True, m'(u \<mapsto> \<lparr>count = 1, resetTime = t' + 60000\<rparr>))"
    by simp
qed

theorem checkRateLimit_fixed_window_witness:
  "(Map.empty ''u1'' = None \<or> (\<exists>e. Map.empty ''u1'' = Some e \<and> 1000 > resetTime e))
   \<and> length [1001, 1002, 1003, 1004, 1005, 1006, 1007, 1008, 1009 :: int] = 9
   \<and> list_all (\<lambda>t. t \<le> (1000::int) + 60000)
         ([1001, 1002, 1003, 1004, 1005, 1006, 1007, 1008, 1009] @ [61000])
   \<and> (61001::int) > 1000 + 60000
   \<and> (case run_calls (1000 # [1001, 1002, 1003, 1004, 1005, 1006, 1007, 1008, 1009] @ [61000])
             ''u1'' Map.empty of
        (oks, m') \<Rightarrow>
          oks = replicate 10 True @ [False]
          \<and> m' ''u1'' = Some \<lparr>count = 10, resetTime = 1000 + 60000\<rparr>
          \<and> checkRateLimit 61001 ''u1'' m' =
              (True, m'(''u1'' \<mapsto> \<lparr>count = 1, resetTime = 61001 + 60000\<rparr>)))
   \<and> checkRateLimit 5 ''u1'' (Map.empty(''u1'' \<mapsto> \<lparr>count = 10, resetTime = 7\<rparr>))
       = (False, Map.empty(''u1'' \<mapsto> \<lparr>count = 10, resetTime = 7\<rparr>))
   \<and> checkRateLimit 5 ''u1'' (Map.empty(''u1'' \<mapsto> \<lparr>count = 3, resetTime = 7\<rparr>))
       = (True, Map.empty(''u1'' \<mapsto> \<lparr>count = 4, resetTime = 7\<rparr>))"
proof -
  let ?ts = "[1001, 1002, 1003, 1004, 1005, 1006, 1007, 1008, 1009 :: int]"
  have h: "(Map.empty ''u1'' = None \<or> (\<exists>e::rl_entry. Map.empty ''u1'' = Some e \<and> 1000 > resetTime e))
      \<and> length ?ts = 9 \<and> (\<forall>t\<in>set (?ts @ [61000]). t \<le> (1000::int) + 60000)
      \<and> (61001::int) > 1000 + 60000"
    by simp
  note w1 = checkRateLimit_fixed_window
    [where m = Map.empty and u = "''u1''" and ?t0.0 = 1000 and ts = ?ts and ?t11.0 = 61000
       and t' = 61001]
  note w2 = checkRateLimit_fixed_window
    [where m = "Map.empty(''u1'' \<mapsto> \<lparr>count = 10, resetTime = 7\<rparr>)" and u = "''u1''" and now = 5]
  note w3 = checkRateLimit_fixed_window
    [where m = "Map.empty(''u1'' \<mapsto> \<lparr>count = 3, resetTime = 7\<rparr>)" and u = "''u1''" and now = 5]
  have c1: "case run_calls (1000 # ?ts @ [61000]) ''u1'' Map.empty of
        (oks, m') \<Rightarrow>
          oks = replicate 10 True @ [False]
          \<and> m' ''u1'' = Some \<lparr>count = 10, resetTime = 1000 + 60000\<rparr>
          \<and> checkRateLimit 61001 ''u1'' m' =
              (True, m'(''u1'' \<mapsto> \<lparr>count = 1, resetTime = 61001 + 60000\<rparr>))"
    by (rule w1[THEN conjunct2, THEN conjunct2, THEN conjunct2, THEN mp, OF h])
  have c2: "checkRateLimit 5 ''u1'' (Map.empty(''u1'' \<mapsto> \<lparr>count = 10, resetTime = 7\<rparr>))
       = (False, Map.empty(''u1'' \<mapsto> \<lparr>count = 10, resetTime = 7\<rparr>))"
    using w2 by simp
  have c3: "checkRateLimit 5 ''u1'' (Map.empty(''u1'' \<mapsto> \<lparr>count = 3, resetTime = 7\<rparr>))
       = (True, Map.empty(''u1'' \<mapsto> \<lparr>count = 4, resetTime = 7\<rparr>))"
    using w3 by simp
  have h': "list_all (\<lambda>t. t \<le> (1000::int) + 60000) (?ts @ [61000])"
    by simp
  from h h' c1 c2 c3 show ?thesis by blast
qed

section \<open>Properties of the identifier extractor\<close>

lemma dropWhile_hd_id: "(s \<noteq> [] \<longrightarrow> \<not> P (hd s)) \<Longrightarrow> dropWhile P s = s"
  by (cases s) auto

lemma trim_id:
  assumes "s \<noteq> [] \<longrightarrow> \<not> is_ws (hd s) \<and> \<not> is_ws (last s)"
  shows "trim s = s"
proof -
  have a: "dropWhile is_ws s = s"
    using assms by (intro dropWhile_hd_id) simp
  have b: "dropWhile is_ws (rev s) = rev s"
    using assms by (intro dropWhile_hd_id) (simp add: hd_rev)
  show ?thesis by (simp add: trim_def a b)
qed

lemma last_dropWhile_nonempty: "dropWhile P xs \<noteq> [] \<Longrightarrow> last (dropWhile P xs) = last xs"
  by (induction xs) (auto split: if_splits)

lemma trim_ends:
  assumes "trim s \<noteq> []"
  shows "\<not> is_ws (hd (trim s)) \<and> \<not> is_ws (last (trim s))"
proof -
  let ?ys = "dropWhile is_ws s"
  let ?zs = "dropWhile is_ws (rev ?ys)"
  have tz: "trim s = rev ?zs" by (simp add: trim_def)
  have zne: "?zs \<noteq> []" using assms tz by simp
  have yne: "?ys \<noteq> []"
  proof
    assume e: "?ys = []"
    have "?zs = []" unfolding e by simp
    with zne show False by blast
  qed
  have "\<not> is_ws (hd ?zs)" using zne by (rule hd_dropWhile)
  then have l: "\<not> is_ws (last (trim s))" using zne by (simp add: tz last_rev)
  have "last ?zs = last (rev ?ys)" using zne by (rule last_dropWhile_nonempty)
  also have "\<dots> = hd ?ys" using yne by (simp add: last_rev)
  finally have "hd (trim s) = hd ?ys" using zne by (simp add: tz hd_rev)
  moreover have "\<not> is_ws (hd ?ys)" using yne by (rule hd_dropWhile)
  ultimately show ?thesis using l by simp
qed

lemma trim_idem: "trim (trim s) = trim s"
  by (rule trim_id) (simp add: trim_ends)

lemma hex_or_dash_not_ws: "is_hex_or_dash c \<Longrightarrow> \<not> is_ws c"
  by (auto simp: is_hex_or_dash_def is_hex_def is_ws_def)

lemma trim_hex_or_dash: "list_all is_hex_or_dash s \<Longrightarrow> trim s = s"
proof (rule trim_id, intro impI)
  assume a: "list_all is_hex_or_dash s" and ne: "s \<noteq> []"
  then have "is_hex_or_dash (hd s)" "is_hex_or_dash (last s)"
    by (simp_all add: list_all_iff)
  then show "\<not> is_ws (hd s) \<and> \<not> is_ws (last s)"
    by (simp add: hex_or_dash_not_ws)
qed

lemma match_patient_path_Some:
  "match_patient_path p = Some u \<longleftrightarrow>
     p = ''/patient/'' @ u \<and> length u = 36 \<and> list_all is_hex_or_dash u"
proof
  assume "match_patient_path p = Some u"
  then have h: "take 9 p = ''/patient/''" "drop 9 p = u" "length u = 36" "list_all is_hex_or_dash u"
    by (auto simp: match_patient_path_def split: if_splits)
  have "p = take 9 p @ drop 9 p" by simp
  with h show "p = ''/patient/'' @ u \<and> length u = 36 \<and> list_all is_hex_or_dash u"
    by metis
next
  assume "p = ''/patient/'' @ u \<and> length u = 36 \<and> list_all is_hex_or_dash u"
  then show "match_patient_path p = Some u"
    by (simp add: match_patient_path_def)
qed

text \<open>
  Claim C10. extractPatientId is idempotent on success: whenever it returns an identifier,
  that identifier passes the UUID validator, is left alone by trimming, and is returned
  unchanged when fed back in. This holds for every validator and every URL parser.
\<close>

theorem extractPatientId_idempotent:
  "extractPatientId uuid_ok url_pathname s = Some i \<Longrightarrow>
   uuid_ok i \<and> trim i = i \<and> extractPatientId uuid_ok url_pathname i = Some i"
proof -
  assume a: "extractPatientId uuid_ok url_pathname s = Some i"
  have ok: "uuid_ok i"
    using a by (auto simp: extractPatientId_def Let_def split: if_splits option.splits)
  have "i = trim s \<or> (\<exists>p. match_patient_path p = Some i)"
    using a by (auto simp: extractPatientId_def Let_def split: if_splits option.splits)
  then have t: "trim i = i"
    by (auto simp: trim_idem match_patient_path_Some trim_hex_or_dash)
  show ?thesis using ok t by (simp add: extractPatientId_def)
qed


theorem extractPatientId_idempotent_witness:
  "extractPatientId is_uuid url_pathname_simple
      ''https://example.com/patient/123e4567-E89B-12d3-a456-426614174000''
     = Some ''123e4567-E89B-12d3-a456-426614174000''
   \<and> is_uuid ''123e4567-E89B-12d3-a456-426614174000''
   \<and> trim ''123e4567-E89B-12d3-a456-426614174000'' = ''123e4567-E89B-12d3-a456-426614174000''
   \<and> extractPatientId is_uuid url_pathname_simple ''123e4567-E89B-12d3-a456-426614174000''
     = Some ''123e4567-E89B-12d3-a456-426614174000''"
proof -
  have h: "extractPatientId is_uuid url_pathname_simple
      ''https://example.com/patient/123e4567-E89B-12d3-a456-426614174000''
     = Some ''123e4567-E89B-12d3-a456-426614174000''"
    by code_simp
  from h extractPatientId_idempotent[OF h] show ?thesis
    by (intro conjI) blast+
qed

lemma is_hex_upper: "is_hex (upper_hex c) = is_hex c"
  by (auto simp: is_hex_def upper_hex_def)

lemma is_hex_lower: "is_hex (lower_hex c) = is_hex c"
  by (auto simp: is_hex_def lower_hex_def)

lemma dash_upper: "(upper_hex c = CHR ''-'') = (c = CHR ''-'')"
  by (auto simp: upper_hex_def)

lemma dash_lower: "(lower_hex c = CHR ''-'') = (c = CHR ''-'')"
  by (auto simp: lower_hex_def)

lemma is_uuid_upper: "is_uuid (map upper_hex s) = is_uuid s"
  by (simp add: is_uuid_def list_all2_map2 is_hex_upper dash_upper)

lemma is_uuid_lower: "is_uuid (map lower_hex s) = is_uuid s"
  by (simp add: is_uuid_def list_all2_map2 is_hex_lower dash_lower)

lemma is_uuid_hex_or_dash: "is_uuid s \<Longrightarrow> length s = 36 \<and> list_all is_hex_or_dash s"
proof -
  assume a: "is_uuid s"
  then have l: "length s = 36"
    by (auto simp: is_uuid_def uuid_shape_def dest: list_all2_lengthD)
  have "list_all2 (\<lambda>p c. is_hex_or_dash c) uuid_shape s"
    using a unfolding is_uuid_def
    by (rule list_all2_mono) (auto simp: is_hex_or_dash_def split: if_splits)
  then have "list_all is_hex_or_dash s"
    by (auto simp: list_all_iff list_all2_conv_all_nth in_set_conv_nth)
  with l show ?thesis by simp
qed

lemma trim_is_uuid: "is_uuid s \<Longrightarrow> trim s = s"
  by (simp add: is_uuid_hex_or_dash trim_hex_or_dash)

text \<open>
  Claim C7. For every string whose trimmed form passes the UUID validator,
  extractPatientId returns that trimmed string itself, whatever the URL parser does. With
  the validator of the spec, hexadecimal digits are accepted in either case: the
  upper-case and the lower-case spelling of a valid UUID are both returned as given.
\<close>

theorem extractPatientId_bare_uuid:
  "(uuid_ok (trim S) \<longrightarrow> extractPatientId uuid_ok url_pathname S = Some (trim S))
   \<and> (is_uuid u \<longrightarrow>
        extractPatientId is_uuid url_pathname (map upper_hex u) = Some (map upper_hex u)
        \<and> extractPatientId is_uuid url_pathname (map lower_hex u) = Some (map lower_hex u))"
proof (intro conjI impI)
  assume "uuid_ok (trim S)"
  then show "extractPatientId uuid_ok url_pathname S = Some (trim S)"
    by (simp add: extractPatientId_def)
next
  assume "is_uuid u"
  then have "is_uuid (map upper_hex u)" by (simp add: is_uuid_upper)
  then show "extractPatientId is_uuid url_pathname (map upper_hex u) = Some (map upper_hex u)"
    by (simp add: extractPatientId_def trim_is_uuid)
next
  assume "is_uuid u"
  then have "is_uuid (map lower_hex u)" by (simp add: is_uuid_lower)
  then show "extractPatientId is_uuid url_pathname (map lower_hex u) = Some (map lower_hex u)"
    by (simp add: extractPatientId_def trim_is_uuid)
qed

theorem extractPatientId_bare_uuid_witness:
  "is_uuid (trim ('' 123E4567-e89b-12D3-a456-426614174000'' @ [CHR 0x0A]))
   \<and> extractPatientId is_uuid url_pathname_simple
        ('' 123E4567-e89b-12D3-a456-426614174000'' @ [CHR 0x0A])
       = Some ''123E4567-e89b-12D3-a456-426614174000''
   \<and> extractPatientId is_uuid url_pathname_simple ''123E4567-E89B-12D3-A456-426614174000''
       = Some ''123E4567-E89B-12D3-A456-426614174000''
   \<and> extractPatientId is_uuid url_pathname_simple ''123e4567-e89b-12d3-a456-426614174000''
       = Some ''123e4567-e89b-12d3-a456-426614174000''"
proof -
  let ?S = "'' 123E4567-e89b-12D3-a456-426614174000'' @ [CHR 0x0A]"
  let ?u = "''123E4567-e89b-12D3-a456-426614174000''"
  have t: "trim ?S = ?u" by code_simp
  have h: "is_uuid (trim ?S)" by code_simp
  have hu: "is_uuid ?u" by code_simp
  have up: "map upper_hex ?u = ''123E4567-E89B-12D3-A456-426614174000''" by code_simp
  have lo: "map lower_hex ?u = ''123e4567-e89b-12d3-a456-426614174000''" by code_simp
  note w = extractPatientId_bare_uuid
    [where uuid_ok = is_uuid and url_pathname = url_pathname_simple and S = ?S and u = ?u]
  have a: "extractPatientId is_uuid url_pathname_simple ?S = Some ?u"
    using w h t by simp
  have b: "extractPatientId is_uuid url_pathname_simple (map upper_hex ?u) = Some (map upper_hex ?u)"
          "extractPatientId is_uuid url_pathname_simple (map lower_hex ?u) = Some (map lower_hex ?u)"
    using w hu by blast+
  show ?thesis
    using h a b unfolding up lo by blast
qed

lemma is_uuid_no_colon: "is_uuid s \<Longrightarrow> CHR '':'' \<notin> set s"
proof
  assume "is_uuid s" and "CHR '':'' \<in> set s"
  then have "is_hex_or_dash CHR '':''"
    using is_uuid_hex_or_dash[of s] by (auto simp: list_all_iff)
  then show False
    by (simp add: is_hex_or_dash_def is_hex_def)
qed

lemma extractPatientId_None_iff:
  "extractPatientId uuid_ok url_pathname S = None \<longleftrightarrow>
     \<not> uuid_ok (trim S)
     \<and> (\<forall>u. url_pathname (trim S) = Some (''/patient/'' @ u) \<and> length u = 36
              \<and> list_all is_hex_or_dash u \<longrightarrow> \<not> uuid_ok u)"
proof (cases "uuid_ok (trim S)")
  case True
  then show ?thesis by (simp add: extractPatientId_def)
next
  case nu: False
  show ?thesis
  proof (cases "url_pathname (trim S)")
    case None
    with nu show ?thesis by (simp add: extractPatientId_def)
  next
    case (Some p)
    show ?thesis
    proof (cases "match_patient_path p")
      case None
      then have "\<And>u. \<not> (p = ''/patient/'' @ u \<and> length u = 36 \<and> list_all is_hex_or_dash u)"
        using match_patient_path_Some[of p] by simp
      with nu Some None show ?thesis
        by (auto simp: extractPatientId_def)
    next
      case (Some m1)
      then have m: "p = ''/patient/'' @ m1 \<and> length m1 = 36 \<and> list_all is_hex_or_dash m1"
        by (simp add: match_patient_path_Some)
      with nu \<open>url_pathname (trim S) = Some p\<close> Some show ?thesis
        by (auto simp: extractPatientId_def)
    qed
  qed
qed

text \<open>
  Claim C8. When the trimmed input parses as an absolute URL whose path is
  \<^verbatim>\<open>/patient/\<close> followed by 36 hexadecimal-or-dash characters that pass the UUID
  validator, extractPatientId returns exactly those 36 characters. (A string that parses
  as an absolute URL has a scheme and a colon, so it is not itself a bare UUID; with the
  validator a parameter this is the hypothesis that the trimmed input does not validate;
  with the validator of the spec it follows from the colon in the input.)
  The result is null exactly when the trimmed input is neither a bare UUID nor such a
  URL: there is one rejection value and nothing else is told apart. In particular the
  empty string, \<^verbatim>\<open>not a uuid\<close> and \<^verbatim>\<open>https://example.com/other/123\<close> are rejected.
\<close>

theorem extractPatientId_url_or_reject:
  "(\<not> uuid_ok (trim S) \<and> url_pathname (trim S) = Some (''/patient/'' @ u) \<and> length u = 36
      \<and> list_all is_hex_or_dash u \<and> uuid_ok u \<longrightarrow>
      extractPatientId uuid_ok url_pathname S = Some u)
   \<and> (extractPatientId uuid_ok url_pathname S = None \<longleftrightarrow>
        \<not> uuid_ok (trim S)
        \<and> (\<forall>w. url_pathname (trim S) = Some (''/patient/'' @ w) \<and> length w = 36
                 \<and> list_all is_hex_or_dash w \<longrightarrow> \<not> uuid_ok w))
   \<and> (CHR '':'' \<in> set (trim S) \<and> url_pathname (trim S) = Some (''/patient/'' @ u)
        \<and> is_uuid u \<longrightarrow>
        extractPatientId is_uuid url_pathname S = Some u)
   \<and> (url_pathname '''' = None \<longrightarrow> extractPatientId is_uuid url_pathname '''' = None)
   \<and> (url_pathname ''not a uuid'' = None \<longrightarrow>
        extractPatientId is_uuid url_pathname ''not a uuid'' = None)
   \<and> (url_pathname ''https://example.com/other/123'' = Some ''/other/123'' \<longrightarrow>
        extractPatientId is_uuid url_pathname ''https://example.com/other/123'' = None)"
proof (intro conjI impI)
  assume a: "\<not> uuid_ok (trim S) \<and> url_pathname (trim S) = Some (''/patient/'' @ u) \<and> length u = 36
      \<and> list_all is_hex_or_dash u \<and> uuid_ok u"
  then have "match_patient_path (''/patient/'' @ u) = Some u"
    by (simp add: match_patient_path_Some)
  with a show "extractPatientId uuid_ok url_pathname S = Some u"
    by (simp add: extractPatientId_def)
next
  show "extractPatientId uuid_ok url_pathname S = None \<longleftrightarrow>
        \<not> uuid_ok (trim S)
        \<and> (\<forall>w. url_pathname (trim S) = Some (''/patient/'' @ w) \<and> length w = 36
                 \<and> list_all is_hex_or_dash w \<longrightarrow> \<not> uuid_ok w)"
    by (rule extractPatientId_None_iff)
next
  assume a: "CHR '':'' \<in> set (trim S) \<and> url_pathname (trim S) = Some (''/patient/'' @ u)
        \<and> is_uuid u"
  then have nu: "\<not> is_uuid (trim S)"
    using is_uuid_no_colon[of "trim S"] by blast
  from a have "match_patient_path (''/patient/'' @ u) = Some u"
    by (simp add: match_patient_path_Some is_uuid_hex_or_dash)
  with a nu show "extractPatientId is_uuid url_pathname S = Some u"
    by (simp add: extractPatientId_def)
next
  have t: "trim '''' = ''''" by code_simp
  have n: "\<not> is_uuid ''''" by code_simp
  assume "url_pathname '''' = None"
  with t n show "extractPatientId is_uuid url_pathname '''' = None"
    by (simp add: extractPatientId_def)
next
  have t: "trim ''not a uuid'' = ''not a uuid''" by code_simp
  have n: "\<not> is_uuid ''not a uuid''" by code_simp
  assume "url_pathname ''not a uuid'' = None"
  with t n show "extractPatientId is_uuid url_pathname ''not a uuid'' = None"
    by (simp add: extractPatientId_def)
next
  let ?s = "''https://example.com/other/123''"
  have t: "trim ?s = ?s" by code_simp
  have n: "\<not> is_uuid ?s" by code_simp
  have m: "match_patient_path ''/other/123'' = None" by code_simp
  assume "url_pathname ?s = Some ''/other/123''"
  with t n m show "extractPatientId is_uuid url_pathname ?s = None"
    by (simp add: extractPatientId_def)
qed

theorem extractPatientId_url_or_reject_witness:
  "extractPatientId is_uuid url_pathname_simple
      '' https://example.com/patient/123e4567-E89B-12d3-a456-426614174000 ''
     = Some ''123e4567-E89B-12d3-a456-426614174000''
   \<and> extractPatientId is_uuid url_pathname_simple '''' = None
   \<and> extractPatientId is_uuid url_pathname_simple ''not a uuid'' = None
   \<and> extractPatientId is_uuid url_pathname_simple ''https://example.com/other/123'' = None
   \<and> extractPatientId is_uuid url_pathname_simple
        ''https://example.com/patient/123e4567-E89B-12d3a-456-426614174000'' = None
   \<and> extractPatientId is_uuid url_pathname_simple
        ''https://example.com/patient/123e4567-E89B-12d3-a456-42661417400'' = None"
proof -
  let ?S = "'' https://example.com/patient/123e4567-E89B-12d3-a456-426614174000 ''"
  let ?u = "''123e4567-E89B-12d3-a456-426614174000''"
  let ?bad1 = "''https://example.com/patient/123e4567-E89B-12d3a-456-426614174000''"
  let ?bad2 = "''https://example.com/patient/123e4567-E89B-12d3-a456-42661417400''"
  have h: "\<not> is_uuid (trim ?S) \<and> url_pathname_simple (trim ?S) = Some (''/patient/'' @ ?u)
      \<and> length ?u = 36 \<and> list_all is_hex_or_dash ?u \<and> is_uuid ?u"
    by code_simp
  note w = extractPatientId_url_or_reject
    [where uuid_ok = is_uuid and url_pathname = url_pathname_simple]
  have a: "extractPatientId is_uuid url_pathname_simple ?S = Some ?u"
    using w[where S = ?S and u = ?u] h by blast
  have e1: "url_pathname_simple '''' = None" by code_simp
  have e2: "url_pathname_simple ''not a uuid'' = None" by code_simp
  have e3: "url_pathname_simple ''https://example.com/other/123'' = Some ''/other/123''"
    by code_simp
  have b: "extractPatientId is_uuid url_pathname_simple '''' = None"
          "extractPatientId is_uuid url_pathname_simple ''not a uuid'' = None"
          "extractPatientId is_uuid url_pathname_simple ''https://example.com/other/123'' = None"
    using w[where S = "''''" and u = "''''"] e1 e2 e3 by blast+
  have r1: "\<not> is_uuid (trim ?bad1)" by code_simp
  have p1: "url_pathname_simple (trim ?bad1) = Some ''/patient/123e4567-E89B-12d3a-456-426614174000''"
    by code_simp
  have v1: "\<not> is_uuid ''123e4567-E89B-12d3a-456-426614174000''" by code_simp
  have c1: "extractPatientId is_uuid url_pathname_simple ?bad1 = None"
    using w[where S = ?bad1 and u = "''''", THEN conjunct2, THEN conjunct1] r1 p1 v1
    by simp
  have r2: "\<not> is_uuid (trim ?bad2)" by code_simp
  have p2: "url_pathname_simple (trim ?bad2) = Some ''/patient/123e4567-E89B-12d3-a456-42661417400''"
    by code_simp
  have c2: "extractPatientId is_uuid url_pathname_simple ?bad2 = None"
    using w[where S = ?bad2 and u = "''''", THEN conjunct2, THEN conjunct1] r2 p2
    by auto
  from a b c1 c2 show ?thesis by blast
qed

section \<open>Properties of the ai-diagnosis handler\<close>

subsection \<open>Which runs reach the gateway and the audit log\<close>

lemma effects_finish_analysis:
  "ModelCall q \<in> set (effects (finish_analysis e uid pd a tr m)) \<longleftrightarrow> ModelCall q \<in> set tr"
  by (auto simp: finish_analysis_def out_def Let_def split: option.splits)

lemma effects_respond_to_model:
  "ModelCall q \<in> set (effects (respond_to_model e uid pd tr m)) \<longleftrightarrow> ModelCall q \<in> set tr"
  by (auto simp: respond_to_model_def out_def Let_def effects_finish_analysis
      split: upstream.splits option.splits)

lemma call_model_reached:
  assumes "ev \<in> set (effects (call_model e uid pd tr m))" and "ev \<notin> set tr"
  shows "stringifiable (member ''name'' pd) \<and> \<not> falsy_string (api_key e) \<and> prompt_builds pd
         \<and> call_model e uid pd tr m = respond_to_model e uid pd (tr @ [ModelCall pd]) m"
  using assms by (auto simp: call_model_def out_def split: if_splits)

lemma validate_body_reached:
  assumes "ev \<in> set (effects (validate_body e r uid tr m))" and "ev \<notin> set tr"
  shows "\<exists>pd. (\<exists>b. req_json r = Some b \<and> \<not> nullish b \<and> pd = member ''patientData'' b)
           \<and> truthy pd \<and> truthy (member ''name'' pd) \<and> truthy (member ''age'' pd)
           \<and> truthy (member ''bloodType'' pd)
           \<and> validate_body e r uid tr m = call_model e uid pd tr m"
proof (cases "req_json r")
  case None
  with assms show ?thesis by (simp add: validate_body_def out_def)
next
  case (Some b)
  let ?pd = "member ''patientData'' b"
  from assms Some have nb: "\<not> nullish b"
    by (auto simp: validate_body_def out_def split: if_splits)
  from assms Some nb have t: "truthy ?pd \<and> truthy (member ''name'' ?pd)
      \<and> truthy (member ''age'' ?pd) \<and> truthy (member ''bloodType'' ?pd)"
    by (auto simp: validate_body_def out_def Let_def split: if_splits)
  with Some nb have "validate_body e r uid tr m = call_model e uid ?pd tr m"
    by (simp add: validate_body_def)
  with Some nb t show ?thesis by blast
qed

lemma check_role_reached:
  assumes "ev \<in> set (effects (check_role e r uid tr m))" and "ev \<notin> set tr"
    and "ev \<noteq> RoleQuery uid"
  shows "(\<exists>roles. roles_result e = Inr roles \<and> hasPermission roles)
         \<and> check_role e r uid tr m = validate_body e r uid (tr @ [RoleQuery uid]) m"
  using assms
  by (auto simp: check_role_def out_def split: sum.splits if_splits)

lemma serve_passes:
  "guards_pass e r m h uid m' pd \<Longrightarrow>
   serve e r m = call_model e uid pd [AuthLookup h, RoleQuery uid] m'"
  by (auto simp: guards_pass_def serve_def check_role_def validate_body_def)

lemma serve_reached:
  assumes ev: "ev \<in> set (effects (serve e r m))"
    and late: "\<forall>h. ev \<noteq> AuthLookup h" "\<forall>u. ev \<noteq> RoleQuery u"
  shows "\<exists>h uid m' pd. guards_pass e r m h uid m' pd
           \<and> stringifiable (member ''name'' pd) \<and> \<not> falsy_string (api_key e) \<and> prompt_builds pd
           \<and> serve e r m =
               respond_to_model e uid pd [AuthLookup h, RoleQuery uid, ModelCall pd] m'"
proof -
  from ev late obtain h uid m' where
        a: "req_method r \<noteq> ''OPTIONS''" "authorization r = Some h" "h \<noteq> []" "createClient_ok e"
           "auth_user e = Some uid" "checkRateLimit (date_now e) uid m = (True, m')"
    and s: "serve e r m = check_role e r uid [AuthLookup h] m'"
    by (auto simp: serve_def out_def split: if_splits option.splits prod.splits)
  from ev s have c: "ev \<in> set (effects (check_role e r uid [AuthLookup h] m'))"
    by simp
  from late have n1: "ev \<notin> set [AuthLookup h]" and n2: "ev \<noteq> RoleQuery uid"
    by simp_all
  from check_role_reached[OF c n1 n2] have
        ro: "\<exists>roles. roles_result e = Inr roles \<and> hasPermission roles"
    and s2: "check_role e r uid [AuthLookup h] m'
               = validate_body e r uid [AuthLookup h, RoleQuery uid] m'"
    by simp_all
  from c s2 have v: "ev \<in> set (effects (validate_body e r uid [AuthLookup h, RoleQuery uid] m'))"
    by simp
  from late have n3: "ev \<notin> set [AuthLookup h, RoleQuery uid]"
    by simp
  from validate_body_reached[OF v n3] obtain pd where
        bo: "\<exists>b. req_json r = Some b \<and> \<not> nullish b \<and> pd = member ''patientData'' b"
    and tr: "truthy pd" "truthy (member ''name'' pd)" "truthy (member ''age'' pd)"
            "truthy (member ''bloodType'' pd)"
    and s3: "validate_body e r uid [AuthLookup h, RoleQuery uid] m'
               = call_model e uid pd [AuthLookup h, RoleQuery uid] m'"
    by blast
  from v s3 have k: "ev \<in> set (effects (call_model e uid pd [AuthLookup h, RoleQuery uid] m'))"
    by simp
  from call_model_reached[OF k n3] have
        pr: "stringifiable (member ''name'' pd)" "\<not> falsy_string (api_key e)" "prompt_builds pd"
    and s4: "call_model e uid pd [AuthLookup h, RoleQuery uid] m'
               = respond_to_model e uid pd [AuthLookup h, RoleQuery uid, ModelCall pd] m'"
    by simp_all
  have g: "guards_pass e r m h uid m' pd"
    using a ro bo tr by (simp add: guards_pass_def)
  from g pr s s2 s3 s4 show ?thesis by auto
qed

lemma serve_called:
  assumes "ModelCall q \<in> set (effects (serve e r m))"
  shows "\<exists>h uid m'. guards_pass e r m h uid m' q
           \<and> stringifiable (member ''name'' q) \<and> \<not> falsy_string (api_key e) \<and> prompt_builds q
           \<and> serve e r m =
               respond_to_model e uid q [AuthLookup h, RoleQuery uid, ModelCall q] m'"
proof -
  from serve_reached[OF assms] obtain h uid m' pd where
        g: "guards_pass e r m h uid m' pd"
           "stringifiable (member ''name'' pd)" "\<not> falsy_string (api_key e)" "prompt_builds pd"
    and s: "serve e r m = respond_to_model e uid pd [AuthLookup h, RoleQuery uid, ModelCall pd] m'"
    by auto
  from assms s have "q = pd"
    by (simp add: effects_respond_to_model)
  with g s show ?thesis by blast
qed

lemma respond_to_model_parsed:
  assumes "ai_reply e = Upstream st (Some d)" "response_ok st" "\<not> nullish d"
    "truthy (message_content d)" "json_parse e (message_content d) = Some a"
  shows "respond_to_model e uid pd tr m = finish_analysis e uid pd a tr m"
  using assms by (simp add: respond_to_model_def)

lemma finish_analysis_logged:
  assumes "LogInsert u n t \<in> set (effects (finish_analysis e uid pd a tr m))"
    and "LogInsert u n t \<notin> set tr"
  shows "\<not> nullish a \<and> u = uid \<and> n = member ''name'' pd \<and> t = member ''triageLevel'' a"
proof (cases "nullish a")
  case True
  with assms show ?thesis by (simp add: finish_analysis_def out_def)
next
  case False
  with assms show ?thesis
    by (cases "log_error e"; cases "stringifiable (member ''name'' pd)
          \<and> stringifiable (member ''triageLevel'' a)")
       (auto simp: finish_analysis_def out_def Let_def)
qed

lemma respond_to_model_cases:
  "(effects (respond_to_model e uid pd tr m) = tr
      \<and> status (resp (respond_to_model e uid pd tr m)) \<in> {402, 429, 500})
   \<or> (\<exists>st d a. ai_reply e = Upstream st (Some d) \<and> response_ok st \<and> \<not> nullish d
         \<and> truthy (message_content d) \<and> json_parse e (message_content d) = Some a
         \<and> respond_to_model e uid pd tr m = finish_analysis e uid pd a tr m)"
proof (cases "ai_reply e")
  case FetchThrows
  then show ?thesis by (simp add: respond_to_model_def out_def json_error_def uncaught_def)
next
  case (Upstream st body)
  show ?thesis
  proof (cases "response_ok st")
    case False
    with Upstream show ?thesis by (simp add: respond_to_model_def out_def json_error_def uncaught_def)
  next
    case ok: True
    show ?thesis
    proof (cases body)
      case None
      with Upstream ok show ?thesis by (simp add: respond_to_model_def out_def json_error_def uncaught_def)
    next
      case (Some d)
      show ?thesis
      proof (cases "nullish d \<or> \<not> truthy (message_content d)")
        case True
        with Upstream ok Some show ?thesis
          by (auto simp: respond_to_model_def out_def Let_def json_error_def uncaught_def)
      next
        case False
        show ?thesis
        proof (cases "json_parse e (message_content d)")
          case None
          with Upstream ok Some False show ?thesis
            by (simp add: respond_to_model_def out_def Let_def json_error_def uncaught_def)
        next
          case (Some a)
          with Upstream ok \<open>body = Some d\<close> False
          have "respond_to_model e uid pd tr m = finish_analysis e uid pd a tr m"
            by (simp add: respond_to_model_def Let_def)
          with Upstream ok \<open>body = Some d\<close> False Some show ?thesis by blast
        qed
      qed
    qed
  qed
qed

lemma respond_to_model_logged:
  assumes "LogInsert u n t \<in> set (effects (respond_to_model e uid pd tr m))"
    and "LogInsert u n t \<notin> set tr"
  shows "\<exists>a. \<not> nullish a \<and> t = member ''triageLevel'' a
           \<and> respond_to_model e uid pd tr m = finish_analysis e uid pd a tr m"
proof -
  from respond_to_model_cases[of e uid pd tr m] assms obtain a where
    eq: "respond_to_model e uid pd tr m = finish_analysis e uid pd a tr m"
    by auto
  with assms have "LogInsert u n t \<in> set (effects (finish_analysis e uid pd a tr m))"
    by simp
  from finish_analysis_logged[OF this assms(2)] eq show ?thesis by blast
qed

lemmas stage_defs = serve_def check_role_def validate_body_def call_model_def
  respond_to_model_def finish_analysis_def out_def checkRateLimit_def RATE_LIMIT_def
  RATE_WINDOW_MS_def hasPermission_def nullish_def falsy_string_def prompt_builds_def
  message_content_def opt_member_def response_ok_def json_error_def uncaught_def

lemmas fixture_defs = example_env_def example_request_def example_patient_def
  example_reply_def urgent_analysis_def

subsection \<open>Guards come before the gateway call\<close>

lemma serve_no_token:
  assumes "falsy_string (authorization r)"
  shows "limits (serve e r m) = m \<and> effects (serve e r m) = []
         \<and> (req_method r \<noteq> ''OPTIONS'' \<longrightarrow>
              resp (serve e r m) = json_error 401 ''Authorization required'')"
  using assms by (auto simp: serve_def out_def falsy_string_def)

lemma serve_role_stage:
  assumes "req_method r \<noteq> ''OPTIONS''" "authorization r = Some h" "h \<noteq> []"
    "createClient_ok e" "auth_user e = Some uid" "checkRateLimit (date_now e) uid m = (True, m')"
  shows "serve e r m = check_role e r uid [AuthLookup h] m'"
  using assms by (simp add: serve_def)

text \<open>
  Claim C4. The gateway is called only in runs that pass every guard: the Authorization
  header is present, the user is authenticated, the limiter allows the call, the role
  query succeeds with a privileged role, and the body carries patient data with truthy
  name, age and bloodType. A request without a token leaves the rate map as it was and
  has no effect at all (no audit record), and unless it is a CORS preflight it is
  answered 401. An authenticated caller whose only role is patient, allowed by the
  limiter, is answered 403 and the only effects are the user lookup and the role query.
\<close>

theorem guards_precede_model_call:
  "(ModelCall pd \<in> set (effects (serve e r m)) \<longrightarrow> (\<exists>h uid m'. guards_pass e r m h uid m' pd))
   \<and> (falsy_string (authorization r) \<longrightarrow>
        limits (serve e r m) = m \<and> effects (serve e r m) = []
        \<and> (req_method r \<noteq> ''OPTIONS'' \<longrightarrow>
             resp (serve e r m) = json_error 401 ''Authorization required''))
   \<and> (req_method r \<noteq> ''OPTIONS'' \<and> authorization r = Some h \<and> h \<noteq> [] \<and> createClient_ok e
        \<and> auth_user e = Some uid \<and> checkRateLimit (date_now e) uid m = (True, m')
        \<and> roles_result e = Inr (Some [''patient'']) \<longrightarrow>
        resp (serve e r m) =
          json_error 403 ''Insufficient permissions. Medical responder or admin role required.''
        \<and> effects (serve e r m) = [AuthLookup h, RoleQuery uid])"
proof (intro conjI impI)
  assume "ModelCall pd \<in> set (effects (serve e r m))"
  from serve_called[OF this] show "\<exists>h uid m'. guards_pass e r m h uid m' pd"
    by blast
next
  assume a: "falsy_string (authorization r)"
  from serve_no_token[OF a] show "limits (serve e r m) = m" by simp
  from serve_no_token[OF a] show "effects (serve e r m) = []" by simp
  assume "req_method r \<noteq> ''OPTIONS''"
  with serve_no_token[OF a]
  show "resp (serve e r m) = json_error 401 ''Authorization required''" by simp
next
  assume a: "req_method r \<noteq> ''OPTIONS'' \<and> authorization r = Some h \<and> h \<noteq> [] \<and> createClient_ok e
        \<and> auth_user e = Some uid \<and> checkRateLimit (date_now e) uid m = (True, m')
        \<and> roles_result e = Inr (Some [''patient''])"
  then have s: "serve e r m = check_role e r uid [AuthLookup h] m'"
    by (intro serve_role_stage) simp_all
  from a show "resp (serve e r m) =
          json_error 403 ''Insufficient permissions. Medical responder or admin role required.''"
    unfolding s by (simp add: check_role_def hasPermission_def out_def)
  from a show "effects (serve e r m) = [AuthLookup h, RoleQuery uid]"
    unfolding s by (simp add: check_role_def hasPermission_def out_def)
qed

theorem guards_precede_model_call_witness:
  "ModelCall (example_patient 45)
     \<in> set (effects (serve (example_env [''medical_responder'']
                              (Upstream 200 (Some example_reply)) (Some urgent_analysis))
                           (example_request 45) Map.empty))
   \<and> (\<exists>h uid m'. guards_pass (example_env [''medical_responder'']
                                  (Upstream 200 (Some example_reply)) (Some urgent_analysis))
                               (example_request 45) Map.empty h uid m' (example_patient 45))
   \<and> falsy_string (authorization ((example_request 45)\<lparr>authorization := None\<rparr>))
   \<and> resp (serve (example_env [''medical_responder'']
                     (Upstream 200 (Some example_reply)) (Some urgent_analysis))
                  ((example_request 45)\<lparr>authorization := None\<rparr>) Map.empty)
       = json_error 401 ''Authorization required''
   \<and> effects (serve (example_env [''medical_responder'']
                     (Upstream 200 (Some example_reply)) (Some urgent_analysis))
                  ((example_request 45)\<lparr>authorization := None\<rparr>) Map.empty) = []
   \<and> resp (serve (example_env [''patient'']
                     (Upstream 200 (Some example_reply)) (Some urgent_analysis))
                  (example_request 45) Map.empty)
       = json_error 403 ''Insufficient permissions. Medical responder or admin role required.''
   \<and> effects (serve (example_env [''patient'']
                     (Upstream 200 (Some example_reply)) (Some urgent_analysis))
                  (example_request 45) Map.empty)
       = [AuthLookup ''Bearer token'', RoleQuery ''user-1'']"
proof -
  let ?e = "example_env [''medical_responder''] (Upstream 200 (Some example_reply))
              (Some urgent_analysis)"
  let ?p = "example_env [''patient''] (Upstream 200 (Some example_reply)) (Some urgent_analysis)"
  let ?r = "example_request 45"
  let ?noauth = "(example_request 45)\<lparr>authorization := None\<rparr>"
  let ?m1 = "Map.empty(''user-1'' \<mapsto> \<lparr>count = 1, resetTime = 61000\<rparr>)"
  have called: "ModelCall (example_patient 45) \<in> set (effects (serve ?e ?r Map.empty))"
    by (simp add: stage_defs fixture_defs)
  have g: "\<exists>h uid m'. guards_pass ?e ?r Map.empty h uid m' (example_patient 45)"
    using guards_precede_model_call[where e = ?e and r = ?r and m = Map.empty
        and pd = "example_patient 45"] called
    by blast
  have f: "falsy_string (authorization ?noauth)"
    by (simp add: falsy_string_def)
  have n: "req_method ?noauth \<noteq> ''OPTIONS''"
    by (simp add: example_request_def)
  have u: "resp (serve ?e ?noauth Map.empty) = json_error 401 ''Authorization required''"
          "effects (serve ?e ?noauth Map.empty) = []"
    using guards_precede_model_call[where e = ?e and r = ?noauth and m = Map.empty] f n
    by blast+
  have h: "req_method ?r \<noteq> ''OPTIONS'' \<and> authorization ?r = Some ''Bearer token''
        \<and> ''Bearer token'' \<noteq> [] \<and> createClient_ok ?p
        \<and> auth_user ?p = Some ''user-1'' \<and> checkRateLimit (date_now ?p) ''user-1'' Map.empty = (True, ?m1)
        \<and> roles_result ?p = Inr (Some [''patient''])"
    by (simp add: fixture_defs checkRateLimit_def RATE_WINDOW_MS_def)
  have p: "resp (serve ?p ?r Map.empty)
             = json_error 403 ''Insufficient permissions. Medical responder or admin role required.''"
          "effects (serve ?p ?r Map.empty) = [AuthLookup ''Bearer token'', RoleQuery ''user-1'']"
    using guards_precede_model_call[where e = ?p and r = ?r and m = Map.empty
        and h = "''Bearer token''" and uid = "''user-1''" and m' = ?m1] h
    by blast+
  from called g f u p show ?thesis by blast
qed

subsection \<open>The role gate\<close>

lemma hasPermission_iff:
  "hasPermission roles \<longleftrightarrow>
     (\<exists>rs. roles = Some rs \<and> (''medical_responder'' \<in> set rs \<or> ''hospital_admin'' \<in> set rs))"
  by (cases roles) (auto simp: hasPermission_def list_ex_iff)

lemma status_finish_analysis:
  "status (resp (finish_analysis e uid pd a tr m)) = 200
   \<or> status (resp (finish_analysis e uid pd a tr m)) = 500"
  by (simp add: finish_analysis_def out_def uncaught_def Let_def)

lemma status_respond_to_model:
  "status (resp (respond_to_model e uid pd tr m)) \<in> {200, 402, 429, 500}"
proof -
  from respond_to_model_cases[of e uid pd tr m] show ?thesis
  proof
    assume "\<exists>st d a. ai_reply e = Upstream st (Some d) \<and> response_ok st \<and> \<not> nullish d
         \<and> truthy (message_content d) \<and> json_parse e (message_content d) = Some a
         \<and> respond_to_model e uid pd tr m = finish_analysis e uid pd a tr m"
    then obtain a where "respond_to_model e uid pd tr m = finish_analysis e uid pd a tr m"
      by blast
    with status_finish_analysis[of e uid pd a tr m] show ?thesis by auto
  next
    assume "effects (respond_to_model e uid pd tr m) = tr
      \<and> status (resp (respond_to_model e uid pd tr m)) \<in> {402, 429, 500}"
    then show ?thesis by auto
  qed
qed

lemma status_call_model:
  "status (resp (call_model e uid pd tr m)) \<in> {200, 402, 429, 500}"
  using status_respond_to_model[of e uid pd "tr @ [ModelCall pd]" m]
  by (auto simp: call_model_def out_def json_error_def uncaught_def)

lemma status_validate_body:
  "status (resp (validate_body e r uid tr m)) \<in> {200, 400, 402, 429, 500}"
proof (cases "req_json r")
  case None
  then show ?thesis by (simp add: validate_body_def out_def uncaught_def)
next
  case (Some b)
  let ?pd = "member ''patientData'' b"
  show ?thesis
  proof (cases "\<not> nullish b \<and> truthy ?pd \<and> truthy (member ''name'' ?pd)
      \<and> truthy (member ''age'' ?pd) \<and> truthy (member ''bloodType'' ?pd)")
    case True
    with Some have "validate_body e r uid tr m = call_model e uid ?pd tr m"
      by (simp add: validate_body_def)
    with status_call_model[of e uid ?pd tr m] show ?thesis by auto
  next
    case False
    with Some show ?thesis
      by (auto simp: validate_body_def out_def json_error_def uncaught_def Let_def)
  qed
qed

text \<open>
  Claim C5. In a run that reaches the role query, the request goes on to the body
  validation exactly when the query succeeds and the fetched roles contain
  medical_responder or hospital_admin. An error of the query is answered 500 with
  \<^verbatim>\<open>Failed to verify user role\<close> and nothing happens after the query (no gateway call,
  no audit record); roles without a privileged one are answered 403, and 403 is
  answered in no other case.
\<close>

theorem role_gate:
  assumes "req_method r \<noteq> ''OPTIONS''" "authorization r = Some h" "h \<noteq> []"
    "createClient_ok e" "auth_user e = Some uid" "checkRateLimit (date_now e) uid m = (True, m')"
  shows "(hasPermission roles \<longleftrightarrow>
            (\<exists>rs. roles = Some rs
                  \<and> (''medical_responder'' \<in> set rs \<or> ''hospital_admin'' \<in> set rs)))
         \<and> (roles_result e = Inr roles \<and> hasPermission roles \<longrightarrow>
              serve e r m = validate_body e r uid [AuthLookup h, RoleQuery uid] m')
         \<and> (roles_result e = Inl roleError \<longrightarrow>
              resp (serve e r m) = json_error 500 ''Failed to verify user role''
              \<and> effects (serve e r m) = [AuthLookup h, RoleQuery uid])
         \<and> (roles_result e = Inr roles \<and> \<not> hasPermission roles \<longrightarrow>
              resp (serve e r m) =
                json_error 403
                  ''Insufficient permissions. Medical responder or admin role required.''
              \<and> effects (serve e r m) = [AuthLookup h, RoleQuery uid])
         \<and> (status (resp (serve e r m)) = 403 \<longleftrightarrow>
              (\<exists>rl. roles_result e = Inr rl \<and> \<not> hasPermission rl))"
proof -
  have s: "serve e r m = check_role e r uid [AuthLookup h] m'"
    using assms by (rule serve_role_stage)
  have c1: "hasPermission roles \<longleftrightarrow>
            (\<exists>rs. roles = Some rs
                  \<and> (''medical_responder'' \<in> set rs \<or> ''hospital_admin'' \<in> set rs))"
    by (rule hasPermission_iff)
  have c2: "roles_result e = Inr roles \<and> hasPermission roles \<longrightarrow>
              serve e r m = validate_body e r uid [AuthLookup h, RoleQuery uid] m'"
    unfolding s by (simp add: check_role_def)
  have c3: "roles_result e = Inl roleError \<longrightarrow>
              resp (serve e r m) = json_error 500 ''Failed to verify user role''
              \<and> effects (serve e r m) = [AuthLookup h, RoleQuery uid]"
    unfolding s by (simp add: check_role_def out_def)
  have c4: "roles_result e = Inr roles \<and> \<not> hasPermission roles \<longrightarrow>
              resp (serve e r m) =
                json_error 403
                  ''Insufficient permissions. Medical responder or admin role required.''
              \<and> effects (serve e r m) = [AuthLookup h, RoleQuery uid]"
    unfolding s by (simp add: check_role_def out_def)
  have c5: "status (resp (serve e r m)) = 403 \<longleftrightarrow>
              (\<exists>rl. roles_result e = Inr rl \<and> \<not> hasPermission rl)"
  proof (cases "roles_result e")
    case (Inl msg)
    then show ?thesis unfolding s by (simp add: check_role_def out_def json_error_def)
  next
    case (Inr rl)
    show ?thesis
    proof (cases "hasPermission rl")
      case True
      with Inr have "check_role e r uid [AuthLookup h] m'
                       = validate_body e r uid [AuthLookup h, RoleQuery uid] m'"
        by (simp add: check_role_def)
      with status_validate_body[of e r uid "[AuthLookup h, RoleQuery uid]" m'] Inr True
      show ?thesis unfolding s by auto
    next
      case False
      with Inr show ?thesis unfolding s by (simp add: check_role_def out_def json_error_def)
    qed
  qed
  from c1 c2 c3 c4 c5 show ?thesis by blast
qed

theorem role_gate_witness:
  "serve (example_env [''hospital_admin''] (Upstream 200 (Some example_reply)) (Some urgent_analysis))
         (example_request 45) Map.empty
     = validate_body
         (example_env [''hospital_admin''] (Upstream 200 (Some example_reply)) (Some urgent_analysis))
         (example_request 45) ''user-1'' [AuthLookup ''Bearer token'', RoleQuery ''user-1'']
         (Map.empty(''user-1'' \<mapsto> \<lparr>count = 1, resetTime = 61000\<rparr>))
   \<and> resp (serve ((example_env [] (Upstream 200 (Some example_reply)) (Some urgent_analysis))
                     \<lparr>roles_result := Inl ''connection lost''\<rparr>)
                  (example_request 45) Map.empty)
       = json_error 500 ''Failed to verify user role''
   \<and> resp (serve (example_env [''patient''] (Upstream 200 (Some example_reply)) (Some urgent_analysis))
                  (example_request 45) Map.empty)
       = json_error 403 ''Insufficient permissions. Medical responder or admin role required.''
   \<and> status (resp (serve (example_env [''patient''] (Upstream 200 (Some example_reply))
                             (Some urgent_analysis))
                          (example_request 45) Map.empty)) = 403"
proof -
  let ?adm = "example_env [''hospital_admin''] (Upstream 200 (Some example_reply))
                (Some urgent_analysis)"
  let ?err = "(example_env [] (Upstream 200 (Some example_reply)) (Some urgent_analysis))
                \<lparr>roles_result := Inl ''connection lost''\<rparr>"
  let ?pat = "example_env [''patient''] (Upstream 200 (Some example_reply)) (Some urgent_analysis)"
  let ?rq = "example_request 45"
  let ?lim = "Map.empty(''user-1'' \<mapsto> \<lparr>count = 1, resetTime = 61000\<rparr>)"
  have rq: "req_method ?rq \<noteq> ''OPTIONS''" "authorization ?rq = Some ''Bearer token''"
    "''Bearer token'' \<noteq> []"
    by (simp_all add: example_request_def)
  have adm: "createClient_ok ?adm" "auth_user ?adm = Some ''user-1''"
    "checkRateLimit (date_now ?adm) ''user-1'' Map.empty = (True, ?lim)"
    "roles_result ?adm = Inr (Some [''hospital_admin''])"
    by (simp_all add: example_env_def checkRateLimit_def RATE_WINDOW_MS_def)
  have err: "createClient_ok ?err" "auth_user ?err = Some ''user-1''"
    "checkRateLimit (date_now ?err) ''user-1'' Map.empty = (True, ?lim)"
    "roles_result ?err = Inl ''connection lost''"
    by (simp_all add: example_env_def checkRateLimit_def RATE_WINDOW_MS_def)
  have pat: "createClient_ok ?pat" "auth_user ?pat = Some ''user-1''"
    "checkRateLimit (date_now ?pat) ''user-1'' Map.empty = (True, ?lim)"
    "roles_result ?pat = Inr (Some [''patient''])"
    by (simp_all add: example_env_def checkRateLimit_def RATE_WINDOW_MS_def)
  have perm: "hasPermission (Some [''hospital_admin''])" "\<not> hasPermission (Some [''patient''])"
    by (simp_all add: hasPermission_def)
  note a = role_gate[OF rq adm(1-3), where roles = "Some [''hospital_admin'']"]
  note b = role_gate[OF rq err(1-3), where roleError = "''connection lost''"]
  note c = role_gate[OF rq pat(1-3), where roles = "Some [''patient'']"]
  have 1: "serve ?adm ?rq Map.empty
             = validate_body ?adm ?rq ''user-1'' [AuthLookup ''Bearer token'', RoleQuery ''user-1''] ?lim"
    using a adm(4) perm(1) by blast
  have 2: "resp (serve ?err ?rq Map.empty) = json_error 500 ''Failed to verify user role''"
    using b err(4) by blast
  have 3: "resp (serve ?pat ?rq Map.empty)
             = json_error 403 ''Insufficient permissions. Medical responder or admin role required.''"
    using c pat(4) perm(2) by blast
  have 4: "status (resp (serve ?pat ?rq Map.empty)) = 403"
    using c pat(4) perm(2) by blast
  from 1 2 3 4 show ?thesis by blast
qed

subsection \<open>Upstream failures\<close>




subsection \<open>The audit insert\<close>

lemma finish_analysis_log_indep:
  "resp (finish_analysis (e\<lparr>log_error := x\<rparr>) uid pd a tr m) = resp (finish_analysis e uid pd a tr m)
   \<and> limits (finish_analysis (e\<lparr>log_error := x\<rparr>) uid pd a tr m)
       = limits (finish_analysis e uid pd a tr m)"
  by (simp add: finish_analysis_def out_def Let_def)

lemma respond_to_model_log_indep:
  "resp (respond_to_model (e\<lparr>log_error := x\<rparr>) uid pd tr m) = resp (respond_to_model e uid pd tr m)
   \<and> limits (respond_to_model (e\<lparr>log_error := x\<rparr>) uid pd tr m)
       = limits (respond_to_model e uid pd tr m)"
  by (simp add: respond_to_model_def out_def Let_def finish_analysis_log_indep
      split: upstream.splits option.splits)

lemma call_model_log_indep:
  "resp (call_model (e\<lparr>log_error := x\<rparr>) uid pd tr m) = resp (call_model e uid pd tr m)
   \<and> limits (call_model (e\<lparr>log_error := x\<rparr>) uid pd tr m) = limits (call_model e uid pd tr m)"
  by (simp add: call_model_def out_def respond_to_model_log_indep)

lemma validate_body_log_indep:
  "resp (validate_body (e\<lparr>log_error := x\<rparr>) r uid tr m) = resp (validate_body e r uid tr m)
   \<and> limits (validate_body (e\<lparr>log_error := x\<rparr>) r uid tr m) = limits (validate_body e r uid tr m)"
  by (simp add: validate_body_def out_def Let_def call_model_log_indep split: option.splits)

lemma check_role_log_indep:
  "resp (check_role (e\<lparr>log_error := x\<rparr>) r uid tr m) = resp (check_role e r uid tr m)
   \<and> limits (check_role (e\<lparr>log_error := x\<rparr>) r uid tr m) = limits (check_role e r uid tr m)"
  by (simp add: check_role_def out_def validate_body_log_indep split: sum.splits)

lemma serve_log_indep:
  "resp (serve (e\<lparr>log_error := x\<rparr>) r m) = resp (serve e r m)
   \<and> limits (serve (e\<lparr>log_error := x\<rparr>) r m) = limits (serve e r m)"
  by (simp add: serve_def out_def check_role_log_indep split: option.splits prod.splits)

lemma serve_logged:
  assumes "LogInsert u n t \<in> set (effects (serve e r m))"
  shows "\<exists>a. t = member ''triageLevel'' a
           \<and> (stringifiable t \<longrightarrow> resp (serve e r m) = \<lparr>status = 200, body = Analysis a\<rparr>)
           \<and> (\<not> stringifiable t \<longrightarrow> resp (serve e r m) = uncaught TypeError)"
proof -
  from serve_reached[OF assms] obtain h uid m' pd where
        nm: "stringifiable (member ''name'' pd)"
    and s: "serve e r m = respond_to_model e uid pd [AuthLookup h, RoleQuery uid, ModelCall pd] m'"
    by auto
  let ?tr = "[AuthLookup h, RoleQuery uid, ModelCall pd]"
  from assms s have l: "LogInsert u n t \<in> set (effects (respond_to_model e uid pd ?tr m'))"
    by simp
  have nt: "LogInsert u n t \<notin> set ?tr" by simp
  from respond_to_model_logged[OF l nt] obtain a where
        na: "\<not> nullish a" and t: "t = member ''triageLevel'' a"
    and f: "respond_to_model e uid pd ?tr m' = finish_analysis e uid pd a ?tr m'"
    by blast
  have "stringifiable t \<longrightarrow> resp (serve e r m) = \<lparr>status = 200, body = Analysis a\<rparr>"
    unfolding s f using na nm t by (simp add: finish_analysis_def out_def Let_def)
  moreover have "\<not> stringifiable t \<longrightarrow> resp (serve e r m) = uncaught TypeError"
    unfolding s f using na nm t by (simp add: finish_analysis_def out_def Let_def)
  ultimately show ?thesis using t by blast
qed

text \<open>
  Claim C9. The outcome of the access_logs insert never changes what the caller gets: for
  every environment and request, the response and the rate map are the same whether the
  insert returns an error or not. In a run that reaches the insert, that response is
  status 200 with the parsed analysis, provided the closing log line can print the
  analysis's triageLevel (otherwise the line throws and the answer is 500, again whatever
  the insert did).
\<close>

theorem log_failure_harmless:
  "resp (serve (e\<lparr>log_error := x\<rparr>) r m) = resp (serve (e\<lparr>log_error := y\<rparr>) r m)
   \<and> limits (serve (e\<lparr>log_error := x\<rparr>) r m) = limits (serve (e\<lparr>log_error := y\<rparr>) r m)
   \<and> (LogInsert u n t \<in> set (effects (serve e r m)) \<and> stringifiable t \<longrightarrow>
        (\<exists>a. t = member ''triageLevel'' a
            \<and> resp (serve (e\<lparr>log_error := x\<rparr>) r m) = \<lparr>status = 200, body = Analysis a\<rparr>
            \<and> resp (serve (e\<lparr>log_error := y\<rparr>) r m) = \<lparr>status = 200, body = Analysis a\<rparr>))"
proof (intro conjI impI)
  show "resp (serve (e\<lparr>log_error := x\<rparr>) r m) = resp (serve (e\<lparr>log_error := y\<rparr>) r m)"
    by (simp add: serve_log_indep)
  show "limits (serve (e\<lparr>log_error := x\<rparr>) r m) = limits (serve (e\<lparr>log_error := y\<rparr>) r m)"
    by (simp add: serve_log_indep)
next
  assume a: "LogInsert u n t \<in> set (effects (serve e r m)) \<and> stringifiable t"
  then have "LogInsert u n t \<in> set (effects (serve e r m))" by simp
  from serve_logged[OF this] a obtain an where
    "t = member ''triageLevel'' an" "resp (serve e r m) = \<lparr>status = 200, body = Analysis an\<rparr>"
    by blast
  then show "\<exists>a. t = member ''triageLevel'' a
            \<and> resp (serve (e\<lparr>log_error := x\<rparr>) r m) = \<lparr>status = 200, body = Analysis a\<rparr>
            \<and> resp (serve (e\<lparr>log_error := y\<rparr>) r m) = \<lparr>status = 200, body = Analysis a\<rparr>"
    by (auto simp: serve_log_indep)
qed

theorem log_failure_harmless_witness:
  "LogInsert ''user-1'' (JStr ''Baby Doe'') (JStr ''urgent'')
     \<in> set (effects (serve (example_env [''medical_responder'']
                              (Upstream 200 (Some example_reply)) (Some urgent_analysis))
                           (example_request 45) Map.empty))
   \<and> stringifiable (JStr ''urgent'')
   \<and> (\<exists>a. JStr ''urgent'' = member ''triageLevel'' a
          \<and> resp (serve ((example_env [''medical_responder'']
                              (Upstream 200 (Some example_reply)) (Some urgent_analysis))
                           \<lparr>log_error := Some ''insert failed''\<rparr>)
                        (example_request 45) Map.empty)
              = \<lparr>status = 200, body = Analysis a\<rparr>
          \<and> resp (serve ((example_env [''medical_responder'']
                              (Upstream 200 (Some example_reply)) (Some urgent_analysis))
                           \<lparr>log_error := None\<rparr>)
                        (example_request 45) Map.empty)
              = \<lparr>status = 200, body = Analysis a\<rparr>)"
proof -
  let ?e = "example_env [''medical_responder''] (Upstream 200 (Some example_reply))
              (Some urgent_analysis)"
  let ?rq = "example_request 45"
  have h: "LogInsert ''user-1'' (JStr ''Baby Doe'') (JStr ''urgent'')
             \<in> set (effects (serve ?e ?rq Map.empty)) \<and> stringifiable (JStr ''urgent'')"
    by (simp add: stage_defs fixture_defs)
  note w = log_failure_harmless[where e = ?e and r = ?rq and m = Map.empty
      and x = "Some ''insert failed''" and y = None and u = "''user-1''"
      and n = "JStr ''Baby Doe''" and t = "JStr ''urgent''"]
  from w h show ?thesis by blast
qed

subsection \<open>No structural validation of the analysis\<close>

text \<open>
  Claim C1, as stated, fails: the handler has no structural validation. With a gateway
  reply whose content parses to an object with triageLevel \<^verbatim>\<open>unknown\<close> and without
  probableConditions and immediateActions, which the spec's validation refuses, the
  handler answers 200 with that object as the analysis.
\<close>

theorem analysis_not_validated_counterexample:
  "\<not> spec_valid_diagnosis unknown_analysis
   \<and> resp (serve (example_env [''medical_responder'']
                    (Upstream 200 (Some example_reply)) (Some unknown_analysis))
                 (example_request 45) Map.empty)
      = \<lparr>status = 200, body = Analysis unknown_analysis\<rparr>"
  by (simp add: spec_valid_diagnosis_def unknown_analysis_def stage_defs fixture_defs)

text \<open>
  Claim C1, amended. In a run that calls the gateway and gets a successful reply whose
  content parses as JSON, the parsed value is returned unchanged as the analysis with
  status 200, whatever its shape, as long as it is not null and its triageLevel can be
  printed in the closing log line; in the two remaining cases the handler throws a
  TypeError and answers 500. A reply parsing to the object with triageLevel
  \<^verbatim>\<open>urgent\<close> and empty probableConditions and immediateActions is answered 200 with
  that object, whose triageLevel is \<^verbatim>\<open>urgent\<close>.
\<close>

theorem analysis_returned_as_parsed:
  assumes "ModelCall pd \<in> set (effects (serve e r m))"
    and "ai_reply e = Upstream st (Some d)" "response_ok st" "\<not> nullish d"
    and "truthy (message_content d)" "json_parse e (message_content d) = Some a"
  shows "(\<not> nullish a \<and> stringifiable (member ''triageLevel'' a) \<longrightarrow>
            resp (serve e r m) = \<lparr>status = 200, body = Analysis a\<rparr>)
         \<and> (nullish a \<or> \<not> stringifiable (member ''triageLevel'' a) \<longrightarrow>
            resp (serve e r m) = uncaught TypeError)
         \<and> (a = urgent_analysis \<longrightarrow>
            resp (serve e r m) = \<lparr>status = 200, body = Analysis urgent_analysis\<rparr>
            \<and> member ''triageLevel'' urgent_analysis = JStr ''urgent'')"
proof -
  from serve_called[OF assms(1)] obtain h uid m' where
        nm: "stringifiable (member ''name'' pd)"
    and s: "serve e r m = respond_to_model e uid pd [AuthLookup h, RoleQuery uid, ModelCall pd] m'"
    by blast
  let ?tr = "[AuthLookup h, RoleQuery uid, ModelCall pd]"
  have f: "respond_to_model e uid pd ?tr m' = finish_analysis e uid pd a ?tr m'"
    using assms(2-6) by (rule respond_to_model_parsed)
  have c1: "\<not> nullish a \<and> stringifiable (member ''triageLevel'' a) \<longrightarrow>
            resp (serve e r m) = \<lparr>status = 200, body = Analysis a\<rparr>"
    unfolding s f using nm by (simp add: finish_analysis_def out_def Let_def)
  have c2: "nullish a \<or> \<not> stringifiable (member ''triageLevel'' a) \<longrightarrow>
            resp (serve e r m) = uncaught TypeError"
    unfolding s f using nm by (auto simp: finish_analysis_def out_def Let_def)
  have u: "\<not> nullish urgent_analysis \<and> stringifiable (member ''triageLevel'' urgent_analysis)
           \<and> member ''triageLevel'' urgent_analysis = JStr ''urgent''"
    by (simp add: urgent_analysis_def nullish_def)
  from c1 c2 u show ?thesis by blast
qed

theorem analysis_returned_as_parsed_witness:
  "resp (serve (example_env [''medical_responder'']
                  (Upstream 200 (Some example_reply)) (Some urgent_analysis))
               (example_request 45) Map.empty)
     = \<lparr>status = 200, body = Analysis urgent_analysis\<rparr>
   \<and> member ''triageLevel'' urgent_analysis = JStr ''urgent''
   \<and> resp (serve (example_env [''medical_responder'']
                  (Upstream 200 (Some example_reply)) (Some JNull))
               (example_request 45) Map.empty)
     = uncaught TypeError"
proof -
  let ?rq = "example_request 45"
  let ?pd = "example_patient 45"
  let ?e = "example_env [''medical_responder''] (Upstream 200 (Some example_reply))
              (Some urgent_analysis)"
  let ?en = "example_env [''medical_responder''] (Upstream 200 (Some example_reply)) (Some JNull)"
  have k: "ModelCall ?pd \<in> set (effects (serve ?e ?rq Map.empty))"
    by (simp add: stage_defs fixture_defs)
  have kn: "ModelCall ?pd \<in> set (effects (serve ?en ?rq Map.empty))"
    by (simp add: stage_defs fixture_defs)
  have rp: "response_ok 200" "\<not> nullish example_reply" "truthy (message_content example_reply)"
    by (simp_all add: example_reply_def response_ok_def nullish_def message_content_def
          opt_member_def)
  have e: "ai_reply ?e = Upstream 200 (Some example_reply)"
          "json_parse ?e (message_content example_reply) = Some urgent_analysis"
    by (simp_all add: example_env_def)
  have en: "ai_reply ?en = Upstream 200 (Some example_reply)"
           "json_parse ?en (message_content example_reply) = Some JNull"
    by (simp_all add: example_env_def)
  note a = analysis_returned_as_parsed[OF k e(1) rp e(2)]
  note b = analysis_returned_as_parsed[OF kn en(1) rp en(2)]
  have nn: "nullish JNull" by (simp add: nullish_def)
  have 1: "resp (serve ?e ?rq Map.empty) = \<lparr>status = 200, body = Analysis urgent_analysis\<rparr>"
          "member ''triageLevel'' urgent_analysis = JStr ''urgent''"
    using a by blast+
  have 2: "resp (serve ?en ?rq Map.empty) = uncaught TypeError"
    using b nn by blast
  from 1 2 show ?thesis by blast
qed

subsection \<open>Patient data with age 0\<close>

text \<open>
  Claim C2 does not hold of the code: the required attributes are tested for truthiness,
  not for presence, so a patient whose name, age and bloodType are all present is
  rejected with status 400 when the age is 0, before the gateway is called. The same
  request with age 45 reaches the gateway.
\<close>

theorem age_zero_rejected:
  "member ''name'' (example_patient 0) = JStr ''Baby Doe''
   \<and> member ''age'' (example_patient 0) = JNum 0
   \<and> member ''bloodType'' (example_patient 0) = JStr ''O+''
   \<and> resp (serve (example_env [''medical_responder'']
                    (Upstream 200 (Some example_reply)) (Some urgent_analysis))
                 (example_request 0) Map.empty)
       = json_error 400 ''Invalid patient data structure''
   \<and> effects (serve (example_env [''medical_responder'']
                       (Upstream 200 (Some example_reply)) (Some urgent_analysis))
                    (example_request 0) Map.empty)
       = [AuthLookup ''Bearer token'', RoleQuery ''user-1'']
   \<and> ModelCall (example_patient 45)
       \<in> set (effects (serve (example_env [''medical_responder'']
                                (Upstream 200 (Some example_reply)) (Some urgent_analysis))
                             (example_request 45) Map.empty))"
  by (simp add: stage_defs fixture_defs)

end
